theory Spec2Isabelle
  imports Complex_Main
begin

section \<open>JavaScript values and objects\<close>

text \<open>
  The factories and the test setup pass plain JavaScript objects around: an override
  set, an insert payload and a returned row are objects whose keys are column names.
  An object is a finite map from property names to values; a key can be present with
  the value \<open>undefined\<close>, which differs from an absent key under the spread operator.
  Numbers that occur in the code under study are integer valued (identifiers, counters,
  clock readings, indices), so \<open>Num\<close> carries an \<open>int\<close>.
\<close>

datatype jsval =
    Undefined
  | Null
  | Num int
  | Str string
  | Obj "string \<Rightarrow> jsval option"

type_synonym obj = "string \<Rightarrow> jsval option"

text \<open>Truthiness, as \<open>if (v)\<close> and \<open>v || w\<close> test it.\<close>

fun truthy :: "jsval \<Rightarrow> bool" where
  "truthy Undefined = False"
| "truthy Null = False"
| "truthy (Num n) = (n \<noteq> 0)"
| "truthy (Str s) = (s \<noteq> [])"
| "truthy (Obj m) = True"

definition js_or :: "jsval \<Rightarrow> jsval \<Rightarrow> jsval" where
  "js_or a b = (if truthy a then a else b)"

text \<open>Property read \<open>o.k\<close> on an object: a missing key reads as \<open>undefined\<close>.\<close>

definition get_prop :: "obj \<Rightarrow> string \<Rightarrow> jsval" where
  "get_prop m k = (case m k of None \<Rightarrow> Undefined | Some v \<Rightarrow> v)"

text \<open>Optional chaining \<open>v?.k\<close>: \<open>undefined\<close> when \<open>v\<close> is \<open>undefined\<close> or \<open>null\<close>.\<close>

fun opt_chain :: "jsval \<Rightarrow> string \<Rightarrow> jsval" where
  "opt_chain (Obj m) k = get_prop m k"
| "opt_chain v k = Undefined"

text \<open>Object spread \<open>{...a, ...b}\<close>: every own key of \<open>b\<close> wins over \<open>a\<close>.\<close>

definition spread :: "obj \<Rightarrow> obj \<Rightarrow> obj" where
  "spread a b = a ++ b"

text \<open>Rest destructuring \<open>const {k, ...rest} = o\<close>: \<open>rest\<close> has every own key but \<open>k\<close>.\<close>

definition rest_without :: "string \<Rightarrow> obj \<Rightarrow> obj" where
  "rest_without k m = m(k := None)"

text \<open>\<open>overrides || {}\<close> for an optional object parameter.\<close>

definition or_empty :: "obj option \<Rightarrow> obj" where
  "or_empty ov = (case ov of None \<Rightarrow> Map.empty | Some m \<Rightarrow> m)"

section \<open>Rendering numbers in template literals\<close>

definition digit_char :: "nat \<Rightarrow> char" where
  "digit_char d = ''0123456789abcdefghijklmnopqrstuvwxyz'' ! d"

fun show_nat :: "nat \<Rightarrow> string" where
  "show_nat n = (if n < 10 then [digit_char n] else show_nat (n div 10) @ [digit_char (n mod 10)])"

declare show_nat.simps [simp del]

text \<open>\<open>`${n}`\<close> for an integer-valued number.\<close>

definition show_int :: "int \<Rightarrow> string" where
  "show_int i = (if i < 0 then CHR ''-'' # show_nat (nat (- i)) else show_nat (nat i))"

text \<open>
  \<open>r.toString(36).substr(2, 5)\<close> for \<open>0 \<le> r < 1\<close>: the text after \<open>0.\<close>, at most five
  base-36 digits, none when \<open>r = 0\<close> (whose text is \<open>0\<close>). The digits are those of the
  exact expansion; the rounding of the last digits of a double is not modelled.
\<close>

fun frac36 :: "nat \<Rightarrow> real \<Rightarrow> string" where
  "frac36 0 r = []"
| "frac36 (Suc n) r =
     (if r = 0 then []
      else digit_char (nat \<lfloor>r * 36\<rfloor>) # frac36 n (r * 36 - of_int \<lfloor>r * 36\<rfloor>))"

section \<open>The world: database, runtime and console\<close>

text \<open>
  Errors are values. \<open>DbError\<close> is a failure of the database or of the framework that
  the model does not explain (connection lost, statement refused); \<open>ConstraintViolation\<close>
  is a failure of a constraint of the schema; \<open>EmptyInsert\<close> is the ORM refusing an
  insert of no rows. \<open>InvalidRange\<close> is declared because the specification names it.
\<close>

datatype exn =
    DbError
  | ConstraintViolation
  | EmptyInsert
  | UnknownFactoryType string
  | FactoriesUnavailable
  | InvalidRange
  | Thrown string

datatype factory = SchoolFactory | TeacherFactory

text \<open>The SQL statements the cleanup code issues through the database handle.\<close>

datatype stmt =
    TruncateTeachersSchools  \<comment> \<open>\<open>TRUNCATE TABLE teachers, schools RESTART IDENTITY CASCADE\<close>\<close>
  | TruncateTeachers         \<comment> \<open>\<open>TRUNCATE TABLE teachers RESTART IDENTITY\<close>\<close>
  | TruncateSchoolsCascade   \<comment> \<open>\<open>TRUNCATE TABLE schools RESTART IDENTITY CASCADE\<close>\<close>
  | DeleteTeachers           \<comment> \<open>\<open>db.delete(teachers)\<close>\<close>
  | DeleteSchools            \<comment> \<open>\<open>db.delete(schools)\<close>\<close>
  | RestartTeachersSeq       \<comment> \<open>\<open>ALTER SEQUENCE teachers_id_seq RESTART WITH 1\<close>\<close>
  | RestartSchoolsSeq        \<comment> \<open>\<open>ALTER SEQUENCE schools_id_seq RESTART WITH 1\<close>\<close>

datatype table = SchoolsTable | TeachersTable

datatype event =
    Sql stmt
  | InsertTx table "obj list"           \<comment> \<open>a transaction inserting the payloads\<close>
  | FactoryInvoked string "jsval list"  \<comment> \<open>an override's factory function was called\<close>
  | AppCompile
  | AppInit
  | AppClose

datatype warning =
    BulkCleanupFailed        \<comment> \<open>\<open>Bulk cleanup failed, trying individual cleanup:\<close>\<close>
  | CleanupError factory     \<comment> \<open>\<open>Error cleaning up teachers:\<close> / \<open>schools:\<close>\<close>
  | FallbackFailed factory   \<comment> \<open>\<open>Fallback cleanup also failed:\<close>\<close>
  | DatabaseNotFound         \<comment> \<open>\<open>DATABASE_CONNECTION not found - factories will not be available\<close>\<close>

text \<open>
  Everything outside the code under study is in one record: the two tables and their
  identifier sequences, the static counter of \<open>TestDataGenerator\<close>, the console, and
  three oracles. \<open>faults\<close> lists the outcome of the coming calls to the database and to
  the framework (\<open>True\<close>: the call raises), so that every pattern of failures is a
  world; past its end calls do not fail. \<open>clock\<close> and \<open>random\<close> give the successive
  results of \<open>Date.now()\<close> and \<open>Math.random()\<close>. \<open>events\<close> records the calls made.
\<close>

record world =
  schools :: "obj list"
  teachers :: "obj list"
  schools_id_seq :: int
  teachers_id_seq :: int
  faults :: "bool list"
  events :: "event list"
  console :: "warning list"
  counter :: int
  clock :: "nat \<Rightarrow> int"
  clock_reads :: nat
  random :: "nat \<Rightarrow> real"
  random_reads :: nat

definition Date_now :: "world \<Rightarrow> int \<times> world" where
  "Date_now w = (clock w (clock_reads w), w\<lparr>clock_reads := Suc (clock_reads w)\<rparr>)"

definition Math_random :: "world \<Rightarrow> real \<times> world" where
  "Math_random w = (random w (random_reads w), w\<lparr>random_reads := Suc (random_reads w)\<rparr>)"

definition console_warn :: "warning \<Rightarrow> world \<Rightarrow> world" where
  "console_warn m w = w\<lparr>console := console w @ [m]\<rparr>"

text \<open>A call that leaves the code: it is recorded, and it raises when the oracle says so.\<close>

definition ext_call :: "event \<Rightarrow> world \<Rightarrow> (exn + unit) \<times> world" where
  "ext_call ev w =
     (let w1 = w\<lparr>events := events w @ [ev], faults := tl (faults w)\<rparr>
      in if faults w \<noteq> [] \<and> hd (faults w) then (Inl DbError, w1) else (Inr (), w1))"

section \<open>TestDataGenerator\<close>

definition getUniqueId :: "world \<Rightarrow> int \<times> world" where
  "getUniqueId w = (counter w + 1, w\<lparr>counter := counter w + 1\<rparr>)"

definition getTimestampId :: "world \<Rightarrow> string \<times> world" where
  "getTimestampId w =
     (let (t, w1) = Date_now w; (r, w2) = Math_random w1
      in (show_int t @ frac36 5 r, w2))"

definition generateEmail :: "string option \<Rightarrow> world \<Rightarrow> string \<times> world" where
  "generateEmail prefix w =
     (let baseName = (case prefix of Some p \<Rightarrow> (if p \<noteq> [] then p else ''test'') | None \<Rightarrow> ''test'');
          (ident, w1) = getTimestampId w
      in (baseName @ ident @ ''@example.com'', w1))"

definition generatePhone :: "world \<Rightarrow> string \<times> world" where
  "generatePhone w =
     (let (r1, w1) = Math_random w;
          area = \<lfloor>r1 * 900\<rfloor> + 100;
          (r2, w2) = Math_random w1;
          first = \<lfloor>r2 * 900\<rfloor> + 100;
          (r3, w3) = Math_random w2;
          second = \<lfloor>r3 * 9000\<rfloor> + 1000
      in (''+1'' @ show_int area @ show_int first @ show_int second, w3))"

definition generateName :: "string option \<Rightarrow> world \<Rightarrow> string \<times> world" where
  "generateName prefix w =
     (let (ident, w1) = getUniqueId w
      in (case prefix of
            Some p \<Rightarrow> (if p \<noteq> [] then p @ '' '' @ show_int ident else ''Test Name '' @ show_int ident)
          | None \<Rightarrow> ''Test Name '' @ show_int ident, w1))"

definition streets :: "string list" where
  "streets = [''Main St'', ''Oak Ave'', ''Pine Rd'', ''Elm Way'', ''Cedar Blvd'']"

definition generateAddress :: "world \<Rightarrow> string \<times> world" where
  "generateAddress w =
     (let (r1, w1) = Math_random w;
          streetNumber = \<lfloor>r1 * 9999\<rfloor> + 1;
          (r2, w2) = Math_random w1;
          i = \<lfloor>r2 * of_nat (length streets)\<rfloor>;
          street = (if 0 \<le> i \<and> i < int (length streets) then streets ! nat i else ''undefined'')
      in (show_int streetNumber @ '' '' @ street, w2))"


section \<open>The database: schema, inserts and statements\<close>

text \<open>
  The schema is the one of the migration: \<open>schools(id serial primary key, name
  varchar(255) not null, address varchar(500), phone varchar(20), email varchar(255),
  created_at, updated_at)\<close> and \<open>teachers(id serial primary key, first_name varchar(100)
  not null, last_name varchar(100) not null, email varchar(255) not null unique, phone
  varchar(20), subject varchar(100), school_id integer references schools(id), created_at,
  updated_at)\<close>. Rows are objects keyed by the property names of the ORM schema.
\<close>

text \<open>The columns of each table, by the property names of the ORM schema.\<close>

definition table_columns :: "table \<Rightarrow> string list" where
  "table_columns t =
     (case t of
        SchoolsTable \<Rightarrow>
          [''id'', ''name'', ''address'', ''phone'', ''email'', ''createdAt'', ''updatedAt'']
      | TeachersTable \<Rightarrow>
          [''id'', ''firstName'', ''lastName'', ''email'', ''phone'', ''subject'', ''schoolId'',
           ''createdAt'', ''updatedAt''])"

text \<open>The value a payload supplies for a column: none when the key is absent or \<open>undefined\<close>.\<close>

definition col :: "obj \<Rightarrow> string \<Rightarrow> jsval option" where
  "col p c = (case p c of None \<Rightarrow> None | Some Undefined \<Rightarrow> None | Some v \<Rightarrow> Some v)"

definition with_default :: "obj \<Rightarrow> string \<Rightarrow> jsval \<Rightarrow> jsval" where
  "with_default p c d = (case col p c of None \<Rightarrow> d | Some v \<Rightarrow> v)"

definition varchar :: "nat \<Rightarrow> bool \<Rightarrow> jsval \<Rightarrow> bool" where
  "varchar n notnull v = (case v of Str s \<Rightarrow> length s \<le> n | Null \<Rightarrow> \<not> notnull | _ \<Rightarrow> False)"

definition integer_col :: "bool \<Rightarrow> jsval \<Rightarrow> bool" where
  "integer_col notnull v = (case v of Num i \<Rightarrow> True | Null \<Rightarrow> \<not> notnull | _ \<Rightarrow> False)"

definition ids_of :: "obj list \<Rightarrow> jsval list" where
  "ids_of rows = map (\<lambda>r. get_prop r ''id'') rows"

text \<open>
  Completing a payload into a row: a missing \<open>id\<close> takes the next value of the table's
  sequence, a missing timestamp the time of the statement, any other missing column
  \<open>NULL\<close>.
\<close>

definition school_row :: "int \<Rightarrow> obj \<Rightarrow> world \<Rightarrow> obj \<times> world" where
  "school_row now p w =
     (let (ident, w1) =
            (case col p ''id'' of
               None \<Rightarrow> (Num (schools_id_seq w), w\<lparr>schools_id_seq := schools_id_seq w + 1\<rparr>)
             | Some v \<Rightarrow> (v, w))
      in ([''id'' \<mapsto> ident,
           ''name'' \<mapsto> with_default p ''name'' Null,
           ''address'' \<mapsto> with_default p ''address'' Null,
           ''phone'' \<mapsto> with_default p ''phone'' Null,
           ''email'' \<mapsto> with_default p ''email'' Null,
           ''createdAt'' \<mapsto> with_default p ''createdAt'' (Num now),
           ''updatedAt'' \<mapsto> with_default p ''updatedAt'' (Num now)], w1))"

definition teacher_row :: "int \<Rightarrow> obj \<Rightarrow> world \<Rightarrow> obj \<times> world" where
  "teacher_row now p w =
     (let (ident, w1) =
            (case col p ''id'' of
               None \<Rightarrow> (Num (teachers_id_seq w), w\<lparr>teachers_id_seq := teachers_id_seq w + 1\<rparr>)
             | Some v \<Rightarrow> (v, w))
      in ([''id'' \<mapsto> ident,
           ''firstName'' \<mapsto> with_default p ''firstName'' Null,
           ''lastName'' \<mapsto> with_default p ''lastName'' Null,
           ''email'' \<mapsto> with_default p ''email'' Null,
           ''phone'' \<mapsto> with_default p ''phone'' Null,
           ''subject'' \<mapsto> with_default p ''subject'' Null,
           ''schoolId'' \<mapsto> with_default p ''schoolId'' Null,
           ''createdAt'' \<mapsto> with_default p ''createdAt'' (Num now),
           ''updatedAt'' \<mapsto> with_default p ''updatedAt'' (Num now)], w1))"

text \<open>The constraints a new row must meet against the current tables.\<close>

definition school_row_ok :: "obj \<Rightarrow> world \<Rightarrow> bool" where
  "school_row_ok r w =
     (integer_col True (get_prop r ''id'')
      \<and> get_prop r ''id'' \<notin> set (ids_of (schools w))
      \<and> varchar 255 True (get_prop r ''name'')
      \<and> varchar 500 False (get_prop r ''address'')
      \<and> varchar 20 False (get_prop r ''phone'')
      \<and> varchar 255 False (get_prop r ''email'')
      \<and> integer_col True (get_prop r ''createdAt'')
      \<and> integer_col True (get_prop r ''updatedAt''))"

definition teacher_row_ok :: "obj \<Rightarrow> world \<Rightarrow> bool" where
  "teacher_row_ok r w =
     (integer_col True (get_prop r ''id'')
      \<and> get_prop r ''id'' \<notin> set (ids_of (teachers w))
      \<and> varchar 100 True (get_prop r ''firstName'')
      \<and> varchar 100 True (get_prop r ''lastName'')
      \<and> varchar 255 True (get_prop r ''email'')
      \<and> get_prop r ''email'' \<notin> set (map (\<lambda>t. get_prop t ''email'') (teachers w))
      \<and> varchar 20 False (get_prop r ''phone'')
      \<and> varchar 100 False (get_prop r ''subject'')
      \<and> integer_col False (get_prop r ''schoolId'')
      \<and> (get_prop r ''schoolId'' = Null \<or> get_prop r ''schoolId'' \<in> set (ids_of (schools w)))
      \<and> integer_col True (get_prop r ''createdAt'')
      \<and> integer_col True (get_prop r ''updatedAt''))"

fun table_row :: "table \<Rightarrow> int \<Rightarrow> obj \<Rightarrow> world \<Rightarrow> obj \<times> world" where
  "table_row SchoolsTable = school_row"
| "table_row TeachersTable = teacher_row"

fun table_row_ok :: "table \<Rightarrow> obj \<Rightarrow> world \<Rightarrow> bool" where
  "table_row_ok SchoolsTable = school_row_ok"
| "table_row_ok TeachersTable = teacher_row_ok"

fun table_append :: "table \<Rightarrow> obj \<Rightarrow> world \<Rightarrow> world" where
  "table_append SchoolsTable r w = w\<lparr>schools := schools w @ [r]\<rparr>"
| "table_append TeachersTable r w = w\<lparr>teachers := teachers w @ [r]\<rparr>"

text \<open>\<open>insert(table).values(ps).returning()\<close>: the rows in the order of the payloads.\<close>

fun insert_rows :: "table \<Rightarrow> int \<Rightarrow> obj list \<Rightarrow> world \<Rightarrow> (exn + obj list) \<times> world" where
  "insert_rows t now [] w = (Inr [], w)"
| "insert_rows t now (p # ps) w =
     (let (r, w1) = table_row t now p w
      in if \<not> table_row_ok t r w1 then (Inl ConstraintViolation, w1)
         else (case insert_rows t now ps (table_append t r w1) of
                 (Inl e, w2) \<Rightarrow> (Inl e, w2)
               | (Inr rs, w2) \<Rightarrow> (Inr (r # rs), w2)))"

text \<open>
  \<open>db.transaction(async (tx) => tx.insert(table).values(ps).returning())\<close>. The ORM
  refuses an empty list of values. A failure inside the transaction rolls the tables
  back; the sequences keep the values they handed out, as PostgreSQL sequences do.
\<close>

definition tx_insert :: "table \<Rightarrow> obj list \<Rightarrow> world \<Rightarrow> (exn + obj list) \<times> world" where
  "tx_insert t ps w =
     (case ext_call (InsertTx t ps) w of
        (Inl e, w1) \<Rightarrow> (Inl e, w1)
      | (Inr u, w1) \<Rightarrow>
          if ps = [] then (Inl EmptyInsert, w1)
          else (let (now, w2) = Date_now w1
                in case insert_rows t now ps w2 of
                     (Inl e, w3) \<Rightarrow> (Inl e, w3\<lparr>schools := schools w1, teachers := teachers w1\<rparr>)
                   | (Inr rs, w3) \<Rightarrow> (Inr rs, w3)))"

text \<open>
  The cleanup statements. \<open>TRUNCATE ... CASCADE\<close> on \<open>schools\<close> also truncates
  \<open>teachers\<close>, which references it, and \<open>RESTART IDENTITY\<close> restarts the sequences of
  every truncated table. \<open>DELETE FROM schools\<close> is refused while a teacher references a
  school (the foreign key is \<open>ON DELETE no action\<close>).
\<close>

fun run_stmt :: "stmt \<Rightarrow> world \<Rightarrow> (exn + unit) \<times> world" where
  "run_stmt TruncateTeachersSchools w =
     (Inr (), w\<lparr>schools := [], teachers := [], schools_id_seq := 1, teachers_id_seq := 1\<rparr>)"
| "run_stmt TruncateTeachers w = (Inr (), w\<lparr>teachers := [], teachers_id_seq := 1\<rparr>)"
| "run_stmt TruncateSchoolsCascade w =
     (Inr (), w\<lparr>schools := [], teachers := [], schools_id_seq := 1, teachers_id_seq := 1\<rparr>)"
| "run_stmt DeleteTeachers w = (Inr (), w\<lparr>teachers := []\<rparr>)"
| "run_stmt DeleteSchools w =
     (if \<exists>t \<in> set (teachers w). get_prop t ''schoolId'' \<in> set (ids_of (schools w))
      then (Inl ConstraintViolation, w)
      else (Inr (), w\<lparr>schools := []\<rparr>))"
| "run_stmt RestartTeachersSeq w = (Inr (), w\<lparr>teachers_id_seq := 1\<rparr>)"
| "run_stmt RestartSchoolsSeq w = (Inr (), w\<lparr>schools_id_seq := 1\<rparr>)"

text \<open>\<open>db.execute(sql)\<close> and \<open>db.delete(table)\<close>.\<close>

definition db_execute :: "stmt \<Rightarrow> world \<Rightarrow> (exn + unit) \<times> world" where
  "db_execute s w =
     (case ext_call (Sql s) w of
        (Inl e, w1) \<Rightarrow> (Inl e, w1)
      | (Inr u, w1) \<Rightarrow> run_stmt s w1)"

section \<open>TeacherFactory\<close>

definition TeacherFactory_getDefaultData :: "jsval \<Rightarrow> world \<Rightarrow> obj \<times> world" where
  "TeacherFactory_getDefaultData schoolId w =
     (let (t1, w1) = Date_now w;
          (t2, w2) = Date_now w1
      in ([''firstName'' \<mapsto> Str (''Teacher'' @ show_int t1),
           ''lastName'' \<mapsto> Str ''Doe'',
           ''email'' \<mapsto> Str (''teacher'' @ show_int t2 @ ''@test.com''),
           ''phone'' \<mapsto> Str ''+1234567890'',
           ''subject'' \<mapsto> Str ''Mathematics'',
           ''schoolId'' \<mapsto> js_or schoolId Null], w2))"

text \<open>
  The payload of \<open>create\<close>: \<open>school\<close> is taken out of the overrides, the rest is spread
  over the defaults, and then \<open>if (school?.id) data.schoolId = school.id\<close>.
\<close>

definition TeacherFactory_create_data :: "obj option \<Rightarrow> world \<Rightarrow> obj \<times> world" where
  "TeacherFactory_create_data overrides w =
     (let school = get_prop (or_empty overrides) ''school'';
          teacherData = rest_without ''school'' (or_empty overrides);
          (defaults, w1) = TeacherFactory_getDefaultData (opt_chain school ''id'') w;
          data = spread defaults teacherData
      in (if truthy (opt_chain school ''id'')
          then data(''schoolId'' \<mapsto> opt_chain school ''id'')
          else data, w1))"

definition first_row :: "obj list \<Rightarrow> jsval" where
  "first_row rs = (case rs of [] \<Rightarrow> Undefined | r # _ \<Rightarrow> Obj r)"

definition TeacherFactory_create :: "obj option \<Rightarrow> world \<Rightarrow> (exn + jsval) \<times> world" where
  "TeacherFactory_create overrides w =
     (let (data, w1) = TeacherFactory_create_data overrides w
      in case tx_insert TeachersTable [data] w1 of
           (Inl e, w2) \<Rightarrow> (Inl e, w2)
         | (Inr rs, w2) \<Rightarrow> (Inr (first_row rs), w2))"

text \<open>The payload \<open>createMany\<close> builds for one index of \<open>Array.from({ length: count }, ...)\<close>.\<close>

definition TeacherFactory_createMany_row :: "jsval \<Rightarrow> obj \<Rightarrow> nat \<Rightarrow> world \<Rightarrow> obj \<times> world" where
  "TeacherFactory_createMany_row school teacherData index w =
     (let (defaults, w1) = TeacherFactory_getDefaultData (opt_chain school ''id'') w;
          (t1, w2) = Date_now w1;
          (t2, w3) = Date_now w2;
          data = spread
                   (defaults(''firstName'' \<mapsto> Str (''Teacher'' @ show_int t1 @ ''_'' @ show_nat index),
                             ''email'' \<mapsto> Str (''teacher'' @ show_int t2 @ ''_'' @ show_nat index @ ''@test.com'')))
                   teacherData
      in (if truthy (opt_chain school ''id'')
          then data(''schoolId'' \<mapsto> opt_chain school ''id'')
          else data, w3))"

text \<open>\<open>Array.from({ length: n }, f)\<close>: \<open>f\<close> at the indices from \<open>index\<close> on, in order.\<close>

fun array_from :: "(nat \<Rightarrow> world \<Rightarrow> 'a \<times> world) \<Rightarrow> nat \<Rightarrow> nat \<Rightarrow> world \<Rightarrow> 'a list \<times> world" where
  "array_from f index 0 w = ([], w)"
| "array_from f index (Suc n) w =
     (let (x, w1) = f index w;
          (xs, w2) = array_from f (Suc index) n w1
      in (x # xs, w2))"

definition TeacherFactory_createMany_data :: "int \<Rightarrow> obj option \<Rightarrow> world \<Rightarrow> obj list \<times> world" where
  "TeacherFactory_createMany_data count overrides w =
     (let school = get_prop (or_empty overrides) ''school'';
          teacherData = rest_without ''school'' (or_empty overrides)
      in array_from (TeacherFactory_createMany_row school teacherData) 0 (nat count) w)"

definition TeacherFactory_createMany :: "int \<Rightarrow> obj option \<Rightarrow> world \<Rightarrow> (exn + obj list) \<times> world" where
  "TeacherFactory_createMany count overrides w =
     (let (teachersData, w1) = TeacherFactory_createMany_data count overrides w
      in tx_insert TeachersTable teachersData w1)"

text \<open>
  \<open>cleanup\<close>: the truncate; when it raises, a warning and the fallback (delete, then
  restart the sequence); when the fallback raises, a second warning and nothing else.
\<close>

definition TeacherFactory_cleanup :: "world \<Rightarrow> (exn + unit) \<times> world" where
  "TeacherFactory_cleanup w =
     (case db_execute TruncateTeachers w of
        (Inr u, w1) \<Rightarrow> (Inr (), w1)
      | (Inl error, w1) \<Rightarrow>
          (let w2 = console_warn (CleanupError TeacherFactory) w1
           in case db_execute DeleteTeachers w2 of
                (Inl fallbackError, w3) \<Rightarrow> (Inr (), console_warn (FallbackFailed TeacherFactory) w3)
              | (Inr u, w3) \<Rightarrow>
                  (case db_execute RestartTeachersSeq w3 of
                     (Inl fallbackError, w4) \<Rightarrow> (Inr (), console_warn (FallbackFailed TeacherFactory) w4)
                   | (Inr u, w4) \<Rightarrow> (Inr (), w4))))"

section \<open>SchoolFactory\<close>

definition SchoolFactory_getDefaultData :: "world \<Rightarrow> obj \<times> world" where
  "SchoolFactory_getDefaultData w =
     (let (name, w1) = generateName (Some ''Test School'') w;
          (address, w2) = generateAddress w1;
          (phone, w3) = generatePhone w2;
          (email, w4) = generateEmail (Some ''school'') w3
      in ([''name'' \<mapsto> Str name,
           ''address'' \<mapsto> Str address,
           ''phone'' \<mapsto> Str phone,
           ''email'' \<mapsto> Str email], w4))"

definition SchoolFactory_create_data :: "obj option \<Rightarrow> world \<Rightarrow> obj \<times> world" where
  "SchoolFactory_create_data overrides w =
     (let (defaults, w1) = SchoolFactory_getDefaultData w
      in (spread defaults (or_empty overrides), w1))"

definition SchoolFactory_create :: "obj option \<Rightarrow> world \<Rightarrow> (exn + jsval) \<times> world" where
  "SchoolFactory_create overrides w =
     (let (data, w1) = SchoolFactory_create_data overrides w
      in case tx_insert SchoolsTable [data] w1 of
           (Inl e, w2) \<Rightarrow> (Inl e, w2)
         | (Inr rs, w2) \<Rightarrow> (Inr (first_row rs), w2))"

definition SchoolFactory_createMany_data :: "int \<Rightarrow> obj option \<Rightarrow> world \<Rightarrow> obj list \<times> world" where
  "SchoolFactory_createMany_data count overrides w =
     array_from (\<lambda>index. SchoolFactory_create_data overrides) 0 (nat count) w"

definition SchoolFactory_createMany :: "int \<Rightarrow> obj option \<Rightarrow> world \<Rightarrow> (exn + obj list) \<times> world" where
  "SchoolFactory_createMany count overrides w =
     (let (schoolsData, w1) = SchoolFactory_createMany_data count overrides w
      in tx_insert SchoolsTable schoolsData w1)"

definition SchoolFactory_cleanup :: "world \<Rightarrow> (exn + unit) \<times> world" where
  "SchoolFactory_cleanup w =
     (case db_execute TruncateSchoolsCascade w of
        (Inr u, w1) \<Rightarrow> (Inr (), w1)
      | (Inl error, w1) \<Rightarrow>
          (let w2 = console_warn (CleanupError SchoolFactory) w1
           in case db_execute DeleteSchools w2 of
                (Inl fallbackError, w3) \<Rightarrow> (Inr (), console_warn (FallbackFailed SchoolFactory) w3)
              | (Inr u, w3) \<Rightarrow>
                  (case db_execute RestartSchoolsSeq w3 of
                     (Inl fallbackError, w4) \<Rightarrow> (Inr (), console_warn (FallbackFailed SchoolFactory) w4)
                   | (Inr u, w4) \<Rightarrow> (Inr (), w4))))"

section \<open>TestFactories, the factory registry\<close>

text \<open>
  The registry holds the factories instantiated so far, by factory type. All of them
  share the one database of the world.
\<close>

type_synonym TestFactories = "string \<Rightarrow> factory option"

definition FACTORY_REGISTRY :: "string \<Rightarrow> factory option" where
  "FACTORY_REGISTRY = [''school'' \<mapsto> SchoolFactory, ''teacher'' \<mapsto> TeacherFactory]"

definition new_TestFactories :: TestFactories where
  "new_TestFactories = Map.empty"

definition TestFactories_get :: "string \<Rightarrow> TestFactories \<Rightarrow> (exn + factory) \<times> TestFactories" where
  "TestFactories_get factoryType factories =
     (case factories factoryType of
        Some f \<Rightarrow> (Inr f, factories)
      | None \<Rightarrow>
          (case FACTORY_REGISTRY factoryType of
             None \<Rightarrow> (Inl (UnknownFactoryType factoryType), factories)
           | Some FactoryClass \<Rightarrow> (Inr FactoryClass, factories(factoryType \<mapsto> FactoryClass))))"

fun factory_cleanup :: "factory \<Rightarrow> world \<Rightarrow> (exn + unit) \<times> world" where
  "factory_cleanup SchoolFactory = SchoolFactory_cleanup"
| "factory_cleanup TeacherFactory = TeacherFactory_cleanup"

text \<open>
  The fallback loop \<open>for (const factoryType of cleanupOrder)\<close>: a type whose factory was
  never instantiated is skipped; an error of a factory's \<open>cleanup\<close> would leave the loop.
\<close>

fun cleanup_loop :: "TestFactories \<Rightarrow> string list \<Rightarrow> world \<Rightarrow> (exn + unit) \<times> world" where
  "cleanup_loop factories [] w = (Inr (), w)"
| "cleanup_loop factories (factoryType # rest) w =
     (case factories factoryType of
        None \<Rightarrow> cleanup_loop factories rest w
      | Some f \<Rightarrow>
          (case factory_cleanup f w of
             (Inl e, w1) \<Rightarrow> (Inl e, w1)
           | (Inr u, w1) \<Rightarrow> cleanup_loop factories rest w1))"

definition cleanupOrder :: "string list" where
  "cleanupOrder = [''teacher'', ''school'']"

definition TestFactories_cleanup :: "TestFactories \<Rightarrow> world \<Rightarrow> (exn + unit) \<times> world" where
  "TestFactories_cleanup factories w =
     (case db_execute TruncateTeachersSchools w of
        (Inr u, w1) \<Rightarrow> (Inr (), w1)
      | (Inl error, w1) \<Rightarrow> cleanup_loop factories cleanupOrder (console_warn BulkCleanupFailed w1))"

section \<open>E2ETestSetup, the test-context builder\<close>

text \<open>
  Modules, controllers, providers and injection tokens are known by name. An override
  entry has the optional fields of the interface \<open>ProviderOverride\<close>; \<open>useValue\<close> is a
  value (\<open>Undefined\<close> when the field is absent), a factory function takes the list of
  its arguments and returns a value or throws.
\<close>

record ProviderOverride =
  token :: string
  useValue :: jsval
  useClass :: "string option"
  useFactory :: "(jsval list \<Rightarrow> exn + jsval) option"
  inject :: "string list option"

text \<open>What the loop of \<open>setupApp\<close> asks of the testing-module builder.\<close>

datatype override_op = UseValue string jsval | UseClass string string

record NestApp =
  app_imports :: "string list"
  app_controllers :: "string list"
  app_providers :: "string list"
  app_overrides :: "override_op list"

datatype Database = DatabaseConnection

record E2ETestSetup =
  app :: "NestApp option"
  db :: "Database option"
  factories :: "TestFactories option"
  serverHttp :: "NestApp option"
  imports' :: "string list"
  controllers :: "string list"
  providers :: "string list"
  providerOverrides :: "ProviderOverride list"
  useCustomModule :: bool

definition AppModule :: string where
  "AppModule = ''AppModule''"

definition new_E2ETestSetup :: E2ETestSetup where
  "new_E2ETestSetup =
     \<lparr>app = None, db = None, factories = None, serverHttp = None,
      imports' = [AppModule], controllers = [], providers = [],
      providerOverrides = [], useCustomModule = False\<rparr>"

definition withAppModule :: "E2ETestSetup \<Rightarrow> E2ETestSetup" where
  "withAppModule s = s\<lparr>imports' := [AppModule], useCustomModule := False\<rparr>"

definition withCustomModule :: "E2ETestSetup \<Rightarrow> E2ETestSetup" where
  "withCustomModule s = s\<lparr>imports' := [], useCustomModule := True\<rparr>"

definition withImports :: "string list \<Rightarrow> E2ETestSetup \<Rightarrow> E2ETestSetup" where
  "withImports xs s = (if useCustomModule s then s\<lparr>imports' := imports' s @ xs\<rparr> else s)"

definition withControllers :: "string list \<Rightarrow> E2ETestSetup \<Rightarrow> E2ETestSetup" where
  "withControllers xs s = (if useCustomModule s then s\<lparr>controllers := controllers s @ xs\<rparr> else s)"

definition withProviders :: "string list \<Rightarrow> E2ETestSetup \<Rightarrow> E2ETestSetup" where
  "withProviders xs s = (if useCustomModule s then s\<lparr>providers := providers s @ xs\<rparr> else s)"

definition overrideProvider :: "string \<Rightarrow> jsval \<Rightarrow> E2ETestSetup \<Rightarrow> E2ETestSetup" where
  "overrideProvider tok v s =
     s\<lparr>providerOverrides := providerOverrides s @
        [\<lparr>token = tok, useValue = v, useClass = None, useFactory = None, inject = None\<rparr>]\<rparr>"

definition overrideProviderWithClass :: "string \<Rightarrow> string \<Rightarrow> E2ETestSetup \<Rightarrow> E2ETestSetup" where
  "overrideProviderWithClass tok c s =
     s\<lparr>providerOverrides := providerOverrides s @
        [\<lparr>token = tok, useValue = Undefined, useClass = Some c, useFactory = None, inject = None\<rparr>]\<rparr>"

definition overrideProviderWithFactory ::
  "string \<Rightarrow> (jsval list \<Rightarrow> exn + jsval) \<Rightarrow> string list \<Rightarrow> E2ETestSetup \<Rightarrow> E2ETestSetup" where
  "overrideProviderWithFactory tok f injected s =
     s\<lparr>providerOverrides := providerOverrides s @
        [\<lparr>token = tok, useValue = Undefined, useClass = None, useFactory = Some f, inject = Some injected\<rparr>]\<rparr>"

text \<open>A sequence of configuration calls on the builder, applied from left to right.\<close>

datatype config_call =
    WithAppModule
  | WithCustomModule
  | WithImports "string list"
  | WithControllers "string list"
  | WithProviders "string list"
  | OverrideProvider string jsval
  | OverrideProviderWithClass string string
  | OverrideProviderWithFactory string "jsval list \<Rightarrow> exn + jsval" "string list"

fun config_step :: "config_call \<Rightarrow> E2ETestSetup \<Rightarrow> E2ETestSetup" where
  "config_step WithAppModule = withAppModule"
| "config_step WithCustomModule = withCustomModule"
| "config_step (WithImports xs) = withImports xs"
| "config_step (WithControllers xs) = withControllers xs"
| "config_step (WithProviders xs) = withProviders xs"
| "config_step (OverrideProvider tok v) = overrideProvider tok v"
| "config_step (OverrideProviderWithClass tok c) = overrideProviderWithClass tok c"
| "config_step (OverrideProviderWithFactory tok f injected) = overrideProviderWithFactory tok f injected"

fun configure :: "config_call list \<Rightarrow> E2ETestSetup \<Rightarrow> E2ETestSetup" where
  "configure [] s = s"
| "configure (c # cs) s = configure cs (config_step c s)"

text \<open>
  The loop over \<open>providerOverrides\<close> in \<open>setupApp\<close>: the first of \<open>useValue !== undefined\<close>,
  \<open>useClass\<close>, \<open>useFactory\<close> that holds decides; in the last case the factory is called
  with no argument and its result goes to \<open>useValue\<close>. The field \<open>inject\<close> is not read.
\<close>

fun apply_overrides ::
  "ProviderOverride list \<Rightarrow> override_op list \<Rightarrow> world \<Rightarrow> (exn + override_op list) \<times> world" where
  "apply_overrides [] moduleBuilder w = (Inr moduleBuilder, w)"
| "apply_overrides (override # rest) moduleBuilder w =
     (if useValue override \<noteq> Undefined
      then apply_overrides rest (moduleBuilder @ [UseValue (token override) (useValue override)]) w
      else case useClass override of
             Some c \<Rightarrow> apply_overrides rest (moduleBuilder @ [UseClass (token override) c]) w
           | None \<Rightarrow>
               (case useFactory override of
                  Some f \<Rightarrow>
                    (let w1 = w\<lparr>events := events w @ [FactoryInvoked (token override) []]\<rparr>
                     in case f [] of
                          Inl e \<Rightarrow> (Inl e, w1)
                        | Inr v \<Rightarrow> apply_overrides rest (moduleBuilder @ [UseValue (token override) v]) w1)
                | None \<Rightarrow> apply_overrides rest moduleBuilder w))"

text \<open>
  \<open>setupApp\<close>. The framework is outside the code: compiling and initialising may raise
  (the oracle), and \<open>app_get\<close> stands for \<open>this.app.get('DATABASE_CONNECTION')\<close>, \<open>None\<close>
  when it throws. The setup object is updated in place, so it is returned also when
  the call is rejected.
\<close>

definition setupApp ::
  "(NestApp \<Rightarrow> Database option) \<Rightarrow> E2ETestSetup \<Rightarrow> world \<Rightarrow> (exn + unit) \<times> E2ETestSetup \<times> world" where
  "setupApp app_get s w =
     (case apply_overrides (providerOverrides s) [] w of
        (Inl e, w1) \<Rightarrow> (Inl e, s, w1)
      | (Inr moduleBuilder, w1) \<Rightarrow>
          (case ext_call AppCompile w1 of
             (Inl e, w2) \<Rightarrow> (Inl e, s, w2)
           | (Inr u, w2) \<Rightarrow>
               (let a = \<lparr>app_imports = imports' s, app_controllers = controllers s,
                         app_providers = providers s, app_overrides = moduleBuilder\<rparr>;
                    s1 = s\<lparr>app := Some a\<rparr>
                in case ext_call AppInit w2 of
                     (Inl e, w3) \<Rightarrow> (Inl e, s1, w3)
                   | (Inr u, w3) \<Rightarrow>
                       (let s2 = s1\<lparr>serverHttp := Some a\<rparr>
                        in case app_get a of
                             Some d \<Rightarrow> (Inr (), s2\<lparr>db := Some d, factories := Some new_TestFactories\<rparr>, w3)
                           | None \<Rightarrow> (Inr (), s2, console_warn DatabaseNotFound w3)))))"

definition cleanup :: "E2ETestSetup \<Rightarrow> world \<Rightarrow> (exn + unit) \<times> world" where
  "cleanup s w =
     (case factories s of
        Some fs \<Rightarrow> TestFactories_cleanup fs w
      | None \<Rightarrow> (Inr (), w))"

definition teardown :: "E2ETestSetup \<Rightarrow> world \<Rightarrow> (exn + unit) \<times> world" where
  "teardown s w =
     (case cleanup s w of
        (Inl e, w1) \<Rightarrow> (Inl e, w1)
      | (Inr u, w1) \<Rightarrow>
          (case app s of
             Some a \<Rightarrow> ext_call AppClose w1
           | None \<Rightarrow> (Inr (), w1)))"





section \<open>Concrete inputs\<close>

text \<open>
  A world with empty tables in which no call fails, the clock stands at 1000 and every
  random draw is one half.
\<close>

definition quiet_world :: world where
  "quiet_world =
     \<lparr>schools = [], teachers = [], schools_id_seq = 1, teachers_id_seq = 1,
      faults = [], events = [], console = [], counter = 0,
      clock = (\<lambda>n. 1000), clock_reads = 0,
      random = (\<lambda>n. 1 / 2), random_reads = 0\<rparr>"

text \<open>Two schools already in the table, one of them with the identifier 0.\<close>

definition school_zero :: obj where
  "school_zero = [''id'' \<mapsto> Num 0, ''name'' \<mapsto> Str ''Zero School'', ''address'' \<mapsto> Null,
                  ''phone'' \<mapsto> Null, ''email'' \<mapsto> Null,
                  ''createdAt'' \<mapsto> Num 900, ''updatedAt'' \<mapsto> Num 900]"

definition school_seven :: obj where
  "school_seven = [''id'' \<mapsto> Num 7, ''name'' \<mapsto> Str ''Seventh School'', ''address'' \<mapsto> Null,
                   ''phone'' \<mapsto> Null, ''email'' \<mapsto> Null,
                   ''createdAt'' \<mapsto> Num 900, ''updatedAt'' \<mapsto> Num 900]"

definition seeded_world :: world where
  "seeded_world = quiet_world\<lparr>schools := [school_zero, school_seven], schools_id_seq := 8\<rparr>"

text \<open>
  A container in which \<open>DATABASE_CONNECTION\<close> resolves exactly when the module graph
  holds \<open>AppModule\<close> or \<open>DatabaseModule\<close>, the modules that provide it.
\<close>

definition database_from_modules :: "NestApp \<Rightarrow> Database option" where
  "database_from_modules a =
     (if AppModule \<in> set (app_imports a) \<or> ''DatabaseModule'' \<in> set (app_imports a)
      then Some DatabaseConnection else None)"

text \<open>A factory function for an override; its result tells how many arguments it got.\<close>

definition mock_factory :: "jsval list \<Rightarrow> exn + jsval" where
  "mock_factory args = Inr (Str (''mock/'' @ show_nat (length args)))"

text \<open>The setup and the world after \<open>new E2ETestSetup().setupApp()\<close> in the quiet world.\<close>

definition built_setup :: E2ETestSetup where
  "built_setup = fst (snd (setupApp database_from_modules new_E2ETestSetup quiet_world))"

definition built_world :: world where
  "built_world = snd (snd (setupApp database_from_modules new_E2ETestSetup quiet_world))"

text \<open>A builder switched to the custom module, given fragments, and switched back.\<close>

definition switched_setup :: E2ETestSetup where
  "switched_setup =
     configure [WithCustomModule, WithImports [''SchoolModule''],
                WithControllers [''SchoolController''], WithAppModule] new_E2ETestSetup"

text \<open>A registry from which both factories have been requested.\<close>

definition both_factories :: TestFactories where
  "both_factories =
     snd (TestFactories_get ''school'' (snd (TestFactories_get ''teacher'' new_TestFactories)))"

section \<open>Notions used in the statements\<close>

text \<open>How often the application was asked to shut down.\<close>

definition closes :: "world \<Rightarrow> nat" where
  "closes w = length (filter (\<lambda>e. e = AppClose) (events w))"

text \<open>The warnings logged between two worlds.\<close>

definition new_warnings :: "world \<Rightarrow> world \<Rightarrow> warning list" where
  "new_warnings w w1 = drop (length (console w)) (console w1)"

text \<open>The world after the \<open>cleanup\<close> of a factory, when the registry holds one.\<close>

definition then_cleanup :: "factory option \<Rightarrow> world \<Rightarrow> world" where
  "then_cleanup fo w = (case fo of None \<Rightarrow> w | Some f \<Rightarrow> snd (factory_cleanup f w))"

text \<open>The entry \<open>{ token, useFactory, inject }\<close> that \<open>overrideProviderWithFactory\<close> records.\<close>

definition factory_entry ::
  "string \<Rightarrow> (jsval list \<Rightarrow> exn + jsval) \<Rightarrow> string list \<Rightarrow> ProviderOverride" where
  "factory_entry tok f injected =
     \<lparr>token = tok, useValue = Undefined, useClass = None, useFactory = Some f, inject = Some injected\<rparr>"

text \<open>The property \<open>k\<close> of the row a call returned, or the error it raised.\<close>

definition returned :: "string \<Rightarrow> (exn + jsval) \<times> world \<Rightarrow> exn + jsval" where
  "returned k res = (case fst res of Inl e \<Rightarrow> Inl e | Inr v \<Rightarrow> Inr (opt_chain v k))"

text \<open>The column \<open>c\<close> of the rows a call returned, or the error it raised.\<close>

definition returned_column :: "string \<Rightarrow> (exn + obj list) \<times> world \<Rightarrow> exn + jsval list" where
  "returned_column c res =
     (case fst res of Inl e \<Rightarrow> Inl e | Inr rows \<Rightarrow> Inr (map (\<lambda>r. get_prop r c) rows))"

section \<open>TestDataGenerator.randomInt\<close>






section \<open>Cleanup never raises\<close>

lemma TeacherFactory_cleanup_returns: "fst (TeacherFactory_cleanup w) = Inr ()"
  by (simp add: TeacherFactory_cleanup_def Let_def split: prod.splits sum.splits)

lemma SchoolFactory_cleanup_returns: "fst (SchoolFactory_cleanup w) = Inr ()"
  by (simp add: SchoolFactory_cleanup_def Let_def split: prod.splits sum.splits)

lemma factory_cleanup_returns: "fst (factory_cleanup f w) = Inr ()"
  by (cases f) (simp_all add: TeacherFactory_cleanup_returns SchoolFactory_cleanup_returns)

lemma cleanup_loop_returns: "fst (cleanup_loop fs ts w) = Inr ()"
proof (induction ts arbitrary: w)
  case Nil
  show ?case by simp
next
  case (Cons t ts)
  show ?case
  proof (cases "fs t")
    case None
    then show ?thesis using Cons.IH by simp
  next
    case (Some f)
    obtain r w1 where fc: "factory_cleanup f w = (r, w1)" by (cases "factory_cleanup f w")
    with factory_cleanup_returns [of f w] have "r = Inr ()" by simp
    with Some fc show ?thesis using Cons.IH by simp
  qed
qed

lemma TestFactories_cleanup_returns: "fst (TestFactories_cleanup fs w) = Inr ()"
  by (simp add: TestFactories_cleanup_def cleanup_loop_returns split: prod.splits sum.splits)

lemma cleanup_loop_order:
  "snd (cleanup_loop fs cleanupOrder w) = then_cleanup (fs ''school'') (then_cleanup (fs ''teacher'') w)"
proof -
  have one: "\<And>t w. snd (cleanup_loop fs [t] w) = then_cleanup (fs t) w"
    using factory_cleanup_returns
    by (auto simp: then_cleanup_def split: option.splits prod.splits sum.splits)
  have two: "\<And>t ts w. snd (cleanup_loop fs (t # ts) w) = snd (cleanup_loop fs ts (then_cleanup (fs t) w))"
  proof -
    fix t ts w
    show "snd (cleanup_loop fs (t # ts) w) = snd (cleanup_loop fs ts (then_cleanup (fs t) w))"
    proof (cases "fs t")
      case None
      then show ?thesis by (simp add: then_cleanup_def)
    next
      case (Some f)
      obtain r w1 where fc: "factory_cleanup f w = (r, w1)" by (cases "factory_cleanup f w")
      with factory_cleanup_returns [of f w] have "r = Inr ()" by simp
      with Some fc show ?thesis by (simp add: then_cleanup_def)
    qed
  qed
  show ?thesis unfolding cleanupOrder_def by (simp only: two cleanup_loop.simps(1) snd_conv)
qed


lemma db_execute_console: "console (snd (db_execute s w)) = console w"
proof -
  have r: "\<And>w. console (snd (run_stmt s w)) = console w" by (cases s) simp_all
  show ?thesis
    using r by (simp add: db_execute_def ext_call_def Let_def)
qed





lemma TeacherFactory_cleanup_console:
  "\<exists>more. console (snd (TeacherFactory_cleanup w)) = console w @ more
     \<and> (fst (db_execute TruncateTeachers w) \<noteq> Inr () \<longrightarrow> CleanupError TeacherFactory \<in> set more)"
proof -
  have d: "\<And>s w r w1. db_execute s w = (r, w1) \<Longrightarrow> console w1 = console w"
    using db_execute_console by (metis snd_conv)
  show ?thesis
    by (auto simp: TeacherFactory_cleanup_def Let_def console_warn_def
             split: prod.splits sum.splits dest!: d)
qed

lemma SchoolFactory_cleanup_console:
  "\<exists>more. console (snd (SchoolFactory_cleanup w)) = console w @ more
     \<and> (fst (db_execute TruncateSchoolsCascade w) \<noteq> Inr () \<longrightarrow> CleanupError SchoolFactory \<in> set more)"
proof -
  have d: "\<And>s w r w1. db_execute s w = (r, w1) \<Longrightarrow> console w1 = console w"
    using db_execute_console by (metis snd_conv)
  show ?thesis
    by (auto simp: SchoolFactory_cleanup_def Let_def console_warn_def
             split: prod.splits sum.splits dest!: d)
qed

lemma factory_cleanup_console_grow:
  "\<exists>more. console (snd (factory_cleanup f w)) = console w @ more"
  using TeacherFactory_cleanup_console [of w] SchoolFactory_cleanup_console [of w]
  by (cases f) auto

lemma then_cleanup_console_grow: "\<exists>more. console (then_cleanup fo w) = console w @ more"
  using factory_cleanup_console_grow by (cases fo) (auto simp: then_cleanup_def)




section \<open>Teardown\<close>

lemma ext_call_closes: "e \<noteq> AppClose \<Longrightarrow> closes (snd (ext_call e w)) = closes w"
  by (simp add: ext_call_def closes_def Let_def)

lemma run_stmt_closes: "closes (snd (run_stmt s w)) = closes w"
  by (cases s) (simp_all add: closes_def)

lemma db_execute_closes: "closes (snd (db_execute s w)) = closes w"
proof (cases "ext_call (Sql s) w")
  case (Pair r w1)
  have "closes w1 = closes w" using ext_call_closes [of "Sql s" w] Pair by simp
  then show ?thesis using Pair run_stmt_closes [of s w1]
    by (cases r) (simp_all add: db_execute_def)
qed

lemma console_warn_closes: "closes (console_warn m w) = closes w"
  by (simp add: console_warn_def closes_def)

lemma TeacherFactory_cleanup_closes: "closes (snd (TeacherFactory_cleanup w)) = closes w"
proof -
  have d: "\<And>s w r w1. db_execute s w = (r, w1) \<Longrightarrow> closes w1 = closes w"
    using db_execute_closes by (metis snd_conv)
  show ?thesis
    by (auto simp: TeacherFactory_cleanup_def Let_def console_warn_closes
             split: prod.splits sum.splits dest!: d)
qed

lemma SchoolFactory_cleanup_closes: "closes (snd (SchoolFactory_cleanup w)) = closes w"
proof -
  have d: "\<And>s w r w1. db_execute s w = (r, w1) \<Longrightarrow> closes w1 = closes w"
    using db_execute_closes by (metis snd_conv)
  show ?thesis
    by (auto simp: SchoolFactory_cleanup_def Let_def console_warn_closes
             split: prod.splits sum.splits dest!: d)
qed

lemma factory_cleanup_closes: "closes (snd (factory_cleanup f w)) = closes w"
  by (cases f) (simp_all add: TeacherFactory_cleanup_closes SchoolFactory_cleanup_closes)

lemma cleanup_loop_closes: "closes (snd (cleanup_loop fs ts w)) = closes w"
proof (induction ts arbitrary: w)
  case Nil
  show ?case by simp
next
  case (Cons t ts)
  show ?case
  proof (cases "fs t")
    case None
    then show ?thesis using Cons.IH by simp
  next
    case (Some f)
    obtain r w1 where fc: "factory_cleanup f w = (r, w1)" by (cases "factory_cleanup f w")
    with factory_cleanup_returns [of f w] have r: "r = Inr ()" by simp
    from fc factory_cleanup_closes [of f w] have "closes w1 = closes w" by simp
    with Some fc r show ?thesis using Cons.IH [of w1] by simp
  qed
qed

lemma TestFactories_cleanup_closes: "closes (snd (TestFactories_cleanup fs w)) = closes w"
proof (cases "db_execute TruncateTeachersSchools w")
  case (Pair r w1)
  from Pair db_execute_closes [of TruncateTeachersSchools w] have c: "closes w1 = closes w" by simp
  show ?thesis using Pair c
    by (cases r) (simp_all add: TestFactories_cleanup_def cleanup_loop_closes console_warn_closes)
qed

lemma cleanup_returns: "fst (cleanup s w) = Inr ()"
  by (simp add: cleanup_def TestFactories_cleanup_returns split: option.splits)

lemma cleanup_closes: "closes (snd (cleanup s w)) = closes w"
  by (simp add: cleanup_def TestFactories_cleanup_closes split: option.splits)

lemma teardown_unbuilt: "app s = None \<Longrightarrow> teardown s w = (Inr (), snd (cleanup s w))"
  using cleanup_returns [of s w] by (cases "cleanup s w") (simp add: teardown_def)

lemma teardown_built: "app s = Some a \<Longrightarrow> teardown s w = ext_call AppClose (snd (cleanup s w))"
  using cleanup_returns [of s w] by (cases "cleanup s w") (simp add: teardown_def)

lemma ext_call_AppClose_closes: "closes (snd (ext_call AppClose w)) = closes w + 1"
  by (simp add: ext_call_def closes_def Let_def)

lemma built_setup_eval:
  "built_setup = new_E2ETestSetup
     \<lparr>app := Some \<lparr>app_imports = [AppModule], app_controllers = [], app_providers = [], app_overrides = []\<rparr>,
      db := Some DatabaseConnection, factories := Some new_TestFactories,
      serverHttp := Some \<lparr>app_imports = [AppModule], app_controllers = [], app_providers = [], app_overrides = []\<rparr>\<rparr>"
  by (simp add: built_setup_def new_E2ETestSetup_def setupApp_def ext_call_def quiet_world_def
        database_from_modules_def Let_def)

lemma built_world_eval: "built_world = quiet_world\<lparr>events := [AppCompile, AppInit]\<rparr>"
  by (simp add: built_world_def new_E2ETestSetup_def setupApp_def ext_call_def quiet_world_def
        database_from_modules_def Let_def)

text \<open>
  C4, as amended. On a context whose application was never created (\<open>setupApp\<close> not
  called, or rejected before the application existed) \<open>teardown()\<close> does not raise and
  asks for no shutdown; when there is no registry either it does nothing at all. On a
  context that holds an application, every \<open>teardown()\<close> asks the application to close
  once, so two calls in succession ask twice. \<open>teardown()\<close> raises only when that
  \<open>close()\<close> raises; its cleanup step never does.
\<close>

theorem teardown_presence_checks:
  "(app s = None \<longrightarrow> fst (teardown s w) = Inr () \<and> closes (snd (teardown s w)) = closes w)
   \<and> (app s = None \<and> factories s = None \<longrightarrow> teardown s w = (Inr (), w))
   \<and> (app s \<noteq> None \<longrightarrow> closes (snd (teardown s w)) = closes w + 1
        \<and> closes (snd (teardown s (snd (teardown s w)))) = closes w + 2)
   \<and> (fst (teardown s w) \<noteq> Inr () \<longrightarrow>
        app s \<noteq> None \<and> fst (teardown s w) = fst (ext_call AppClose (snd (cleanup s w))))"
proof (cases "app s")
  case None
  then show ?thesis
    using teardown_unbuilt [of s w] cleanup_closes [of s w]
    by (auto simp: cleanup_def)
next
  case (Some a)
  have t: "\<And>w. closes (snd (teardown s w)) = closes w + 1"
    using teardown_built [OF Some] ext_call_AppClose_closes cleanup_closes by simp
  have e: "fst (teardown s w) = fst (ext_call AppClose (snd (cleanup s w)))"
    using teardown_built [OF Some, of w] by simp
  show ?thesis using Some t e by simp
qed

text \<open>A setup that was never built, and the setup built in the quiet world.\<close>

theorem teardown_presence_checks_witness:
  "teardown new_E2ETestSetup quiet_world = (Inr (), quiet_world)
   \<and> closes (snd (teardown built_setup built_world)) = 1
   \<and> closes (snd (teardown built_setup (snd (teardown built_setup built_world)))) = 2"
proof -
  have n: "app new_E2ETestSetup = None \<and> factories new_E2ETestSetup = None"
    by (simp add: new_E2ETestSetup_def)
  have b: "app built_setup \<noteq> None" by (simp add: built_setup_eval)
  have c: "closes built_world = 0" by (simp add: built_world_eval closes_def quiet_world_def)
  from teardown_presence_checks [of new_E2ETestSetup quiet_world] n
  have 1: "teardown new_E2ETestSetup quiet_world = (Inr (), quiet_world)" by blast
  from teardown_presence_checks [of built_setup built_world] b c
  have 2: "closes (snd (teardown built_setup built_world)) = 1
           \<and> closes (snd (teardown built_setup (snd (teardown built_setup built_world)))) = 2"
    by simp
  from 1 2 show ?thesis by simp
qed

text \<open>
  C4 as stated fails: after the first \<open>teardown()\<close> has completed, a second one asks the
  application to close a second time.
\<close>

theorem teardown_closes_twice:
  "fst (teardown built_setup built_world) = Inr ()
   \<and> events (snd (teardown built_setup (snd (teardown built_setup built_world)))) =
       [AppCompile, AppInit, Sql TruncateTeachersSchools, AppClose,
        Sql TruncateTeachersSchools, AppClose]"
  by (simp add: built_setup_eval built_world_eval new_E2ETestSetup_def teardown_def cleanup_def
        TestFactories_cleanup_def db_execute_def ext_call_def quiet_world_def Let_def)

section \<open>The builder\<close>



lemma config_step_full_imports:
  assumes "\<not> useCustomModule s \<longrightarrow> imports' s = [AppModule]"
  shows "\<not> useCustomModule (config_step c s) \<longrightarrow> imports' (config_step c s) = [AppModule]"
  using assms
  by (cases c)
     (simp_all add: withAppModule_def withCustomModule_def withImports_def withControllers_def
        withProviders_def overrideProvider_def overrideProviderWithClass_def
        overrideProviderWithFactory_def)

lemma configure_full_imports:
  assumes "\<not> useCustomModule s \<longrightarrow> imports' s = [AppModule]"
  shows "\<not> useCustomModule (configure cs s) \<longrightarrow> imports' (configure cs s) = [AppModule]"
  using assms
proof (induction cs arbitrary: s)
  case Nil
  then show ?case by simp
next
  case (Cons c cs)
  from config_step_full_imports [OF Cons.prems]
  have "\<not> useCustomModule (config_step c s) \<longrightarrow> imports' (config_step c s) = [AppModule]" .
  from Cons.IH [OF this] show ?case by simp
qed

lemma setupApp_built_app:
  assumes "setupApp g s w = (Inr (), s1, w1)"
  shows "\<exists>ops. app s1 = Some \<lparr>app_imports = imports' s, app_controllers = controllers s,
                              app_providers = providers s, app_overrides = ops\<rparr>
               \<and> fst (apply_overrides (providerOverrides s) [] w) = Inr ops"
  using assms
  by (auto simp: setupApp_def Let_def split: prod.splits sum.splits option.splits)

text \<open>
  C3, as amended. While the full-composition mode is selected, \<open>withImports\<close>,
  \<open>withControllers\<close> and \<open>withProviders\<close> change nothing. A switch of mode keeps the lists
  of controllers and providers as they are and resets the list of imports, to
  \<open>[AppModule]\<close> for the full mode and to the empty list for the custom mode. After any
  sequence of configuration calls on a new builder, a build in the full mode imports
  \<open>AppModule\<close> and nothing else.
\<close>

theorem builder_modes:
  "(\<not> useCustomModule s \<longrightarrow>
       withImports xs s = s \<and> withControllers xs s = s \<and> withProviders xs s = s)
   \<and> controllers (withAppModule s) = controllers s \<and> providers (withAppModule s) = providers s
   \<and> controllers (withCustomModule s) = controllers s \<and> providers (withCustomModule s) = providers s
   \<and> imports' (withAppModule s) = [AppModule] \<and> imports' (withCustomModule s) = []
   \<and> (\<not> useCustomModule (configure cs new_E2ETestSetup)
        \<and> setupApp g (configure cs new_E2ETestSetup) w = (Inr (), s1, w1) \<longrightarrow>
          (\<exists>a. app s1 = Some a \<and> app_imports a = [AppModule]))"
proof -
  have inv: "\<not> useCustomModule (configure cs new_E2ETestSetup) \<longrightarrow>
             imports' (configure cs new_E2ETestSetup) = [AppModule]"
    by (rule configure_full_imports) (simp add: new_E2ETestSetup_def)
  have build: "\<not> useCustomModule (configure cs new_E2ETestSetup)
        \<and> setupApp g (configure cs new_E2ETestSetup) w = (Inr (), s1, w1) \<longrightarrow>
          (\<exists>a. app s1 = Some a \<and> app_imports a = [AppModule])"
  proof (intro impI, elim conjE)
    assume m: "\<not> useCustomModule (configure cs new_E2ETestSetup)"
      and b: "setupApp g (configure cs new_E2ETestSetup) w = (Inr (), s1, w1)"
    from setupApp_built_app [OF b] obtain ops where
      "app s1 = Some \<lparr>app_imports = imports' (configure cs new_E2ETestSetup),
                      app_controllers = controllers (configure cs new_E2ETestSetup),
                      app_providers = providers (configure cs new_E2ETestSetup), app_overrides = ops\<rparr>"
      by blast
    with inv m show "\<exists>a. app s1 = Some a \<and> app_imports a = [AppModule]" by simp
  qed
  have rest: "(\<not> useCustomModule s \<longrightarrow>
       withImports xs s = s \<and> withControllers xs s = s \<and> withProviders xs s = s)
   \<and> controllers (withAppModule s) = controllers s \<and> providers (withAppModule s) = providers s
   \<and> controllers (withCustomModule s) = controllers s \<and> providers (withCustomModule s) = providers s
   \<and> imports' (withAppModule s) = [AppModule] \<and> imports' (withCustomModule s) = []"
    by (simp add: withImports_def withControllers_def withProviders_def withAppModule_def
          withCustomModule_def)
  from rest build show ?thesis by blast
qed

lemma switched_setup_eval:
  "switched_setup = new_E2ETestSetup\<lparr>controllers := [''SchoolController'']\<rparr>"
  by (simp add: switched_setup_def new_E2ETestSetup_def withAppModule_def withCustomModule_def
        withImports_def withControllers_def)

text \<open>The additive calls on a new builder, and a build after a switch back to the full mode.\<close>

theorem builder_modes_witness:
  "withImports [''SchoolModule''] new_E2ETestSetup = new_E2ETestSetup
   \<and> withControllers [''SchoolController''] new_E2ETestSetup = new_E2ETestSetup
   \<and> withProviders [''SchoolService''] new_E2ETestSetup = new_E2ETestSetup
   \<and> (\<exists>a. app (fst (snd (setupApp database_from_modules switched_setup quiet_world))) = Some a
          \<and> app_imports a = [AppModule])"
proof -
  have m: "\<not> useCustomModule new_E2ETestSetup" by (simp add: new_E2ETestSetup_def)
  have m2: "\<not> useCustomModule switched_setup"
    by (simp add: switched_setup_eval new_E2ETestSetup_def)
  obtain s1 w1 where b: "setupApp database_from_modules switched_setup quiet_world = (Inr (), s1, w1)"
    by (simp add: switched_setup_eval new_E2ETestSetup_def
        setupApp_def ext_call_def quiet_world_def database_from_modules_def Let_def)
  from builder_modes [of new_E2ETestSetup "[''SchoolModule'']" _ _ _ _ _] m
  have a: "withImports [''SchoolModule''] new_E2ETestSetup = new_E2ETestSetup" by blast
  from builder_modes [of new_E2ETestSetup "[''SchoolController'']" _ _ _ _ _] m
  have c: "withControllers [''SchoolController''] new_E2ETestSetup = new_E2ETestSetup" by blast
  from builder_modes [of new_E2ETestSetup "[''SchoolService'']" _ _ _ _ _] m
  have p: "withProviders [''SchoolService''] new_E2ETestSetup = new_E2ETestSetup" by blast
  from builder_modes [of new_E2ETestSetup "[]"
      "[WithCustomModule, WithImports [''SchoolModule''], WithControllers [''SchoolController''], WithAppModule]"
      database_from_modules quiet_world s1 w1] m2 b
  have "\<exists>a. app s1 = Some a \<and> app_imports a = [AppModule]"
    by (simp only: switched_setup_def [symmetric]) blast
  with a c p b show ?thesis by simp
qed

text \<open>
  C3 as stated fails on two counts. The import added in the custom mode is discarded by
  the switch of mode: it is not in the list after the switch, nor after a switch back.
  The controller added in the custom mode is applied to the build in the full mode.
\<close>

theorem builder_modes_counterexample:
  "\<not> useCustomModule switched_setup
   \<and> ''SchoolModule'' \<notin> set (imports' switched_setup)
   \<and> ''SchoolModule'' \<notin> set (imports' (withCustomModule switched_setup))
   \<and> (\<exists>a. app (fst (snd (setupApp database_from_modules switched_setup quiet_world))) = Some a
          \<and> app_controllers a = [''SchoolController''])"
  by (simp add: switched_setup_eval new_E2ETestSetup_def withCustomModule_def AppModule_def
        setupApp_def ext_call_def quiet_world_def database_from_modules_def Let_def)

section \<open>getFactory\<close>








section \<open>Factory overrides\<close>

lemma apply_overrides_append:
  "apply_overrides (xs @ ys) mb w =
     (case apply_overrides xs mb w of
        (Inl e, w1) \<Rightarrow> (Inl e, w1)
      | (Inr mb1, w1) \<Rightarrow> apply_overrides ys mb1 w1)"
  by (induction xs mb w rule: apply_overrides.induct)
     (auto simp: Let_def split: option.splits sum.splits)

lemma apply_overrides_grows:
  "apply_overrides xs mb w = (Inr ops, w1) \<Longrightarrow> \<exists>more. ops = mb @ more"
proof (induction xs mb w rule: apply_overrides.induct)
  case (1 mb w)
  then show ?case by simp
next
  case (2 override rest mb w)
  show ?case
  proof (cases "useValue override \<noteq> Undefined")
    case True
    with 2 show ?thesis by fastforce
  next
    case False
    note uv = this
    show ?thesis
    proof (cases "useClass override")
      case (Some c)
      with 2 uv show ?thesis by fastforce
    next
      case None
      note uc = this
      show ?thesis
      proof (cases "useFactory override")
        case None
        with 2 uv uc show ?thesis by fastforce
      next
        case (Some f)
        note uf = this
        show ?thesis
        proof (cases "f []")
          case (Inl e)
          with 2 uv uc uf show ?thesis by (simp add: Let_def)
        next
          case (Inr v)
          with "2.prems" uv uc uf
          have "apply_overrides rest (mb @ [UseValue (token override) v])
                  (w\<lparr>events := events w @ [FactoryInvoked (token override) []]\<rparr>) = (Inr ops, w1)"
            by (simp add: Let_def)
          from "2.IH"(3) [OF _ uc uf refl Inr this] uv
          show ?thesis by auto
        qed
      qed
    qed
  qed
qed

text \<open>
  C9. \<open>overrideProviderWithFactory(token, factoryFn, inject)\<close> records the entry with its
  \<open>inject\<close> list. When the loop of \<open>setupApp\<close> reaches the entry, wherever it stands in
  the list, it calls \<open>factoryFn\<close> once, with no argument, and hands the result to
  \<open>useValue\<close>; the \<open>inject\<close> list has no part in it. In a build that succeeds, the value
  is among the overrides of the application.
\<close>

theorem factory_override_called_once:
  "providerOverrides (overrideProviderWithFactory tok f injected s) =
     providerOverrides s @ [factory_entry tok f injected]
   \<and> apply_overrides (xs @ factory_entry tok f injected # ys) mb w =
       (case apply_overrides xs mb w of
          (Inl e, w1) \<Rightarrow> (Inl e, w1)
        | (Inr ops, w1) \<Rightarrow>
            (case f [] of
               Inl e \<Rightarrow> (Inl e, w1\<lparr>events := events w1 @ [FactoryInvoked tok []]\<rparr>)
             | Inr v \<Rightarrow> apply_overrides ys (ops @ [UseValue tok v])
                         (w1\<lparr>events := events w1 @ [FactoryInvoked tok []]\<rparr>)))
   \<and> (providerOverrides s0 = xs @ factory_entry tok f injected # ys
        \<and> setupApp g s0 w = (Inr (), s1, w1) \<longrightarrow>
        (\<exists>a v. app s1 = Some a \<and> f [] = Inr v \<and> UseValue tok v \<in> set (app_overrides a)))"
proof -
  have rec: "providerOverrides (overrideProviderWithFactory tok f injected s) =
     providerOverrides s @ [factory_entry tok f injected]"
    by (simp add: overrideProviderWithFactory_def factory_entry_def)
  have eq: "\<And>mb w. apply_overrides (xs @ factory_entry tok f injected # ys) mb w =
       (case apply_overrides xs mb w of
          (Inl e, w1) \<Rightarrow> (Inl e, w1)
        | (Inr ops, w1) \<Rightarrow>
            (case f [] of
               Inl e \<Rightarrow> (Inl e, w1\<lparr>events := events w1 @ [FactoryInvoked tok []]\<rparr>)
             | Inr v \<Rightarrow> apply_overrides ys (ops @ [UseValue tok v])
                         (w1\<lparr>events := events w1 @ [FactoryInvoked tok []]\<rparr>)))"
    by (simp add: apply_overrides_append factory_entry_def Let_def split: prod.splits sum.splits)
  have build: "providerOverrides s0 = xs @ factory_entry tok f injected # ys
        \<and> setupApp g s0 w = (Inr (), s1, w1) \<longrightarrow>
        (\<exists>a v. app s1 = Some a \<and> f [] = Inr v \<and> UseValue tok v \<in> set (app_overrides a))"
  proof (intro impI, elim conjE)
    assume p: "providerOverrides s0 = xs @ factory_entry tok f injected # ys"
      and b: "setupApp g s0 w = (Inr (), s1, w1)"
    from setupApp_built_app [OF b] obtain ops where
      a: "app s1 = Some \<lparr>app_imports = imports' s0, app_controllers = controllers s0,
                        app_providers = providers s0, app_overrides = ops\<rparr>"
      and o: "fst (apply_overrides (providerOverrides s0) [] w) = Inr ops"
      by blast
    obtain r0 w0 where x: "apply_overrides xs [] w = (r0, w0)" by (cases "apply_overrides xs [] w")
    from o p x obtain ops0 where r0: "r0 = Inr ops0"
      by (cases r0) (simp_all add: eq)
    from o p x r0 obtain v where v: "f [] = Inr v"
      by (cases "f []") (simp_all add: eq)
    let ?w = "w0\<lparr>events := events w0 @ [FactoryInvoked tok []]\<rparr>"
    obtain r2 w2 where y: "apply_overrides ys (ops0 @ [UseValue tok v]) ?w = (r2, w2)"
      by (cases "apply_overrides ys (ops0 @ [UseValue tok v]) ?w")
    from o p x r0 v y have "r2 = Inr ops" by (simp add: eq)
    with y apply_overrides_grows obtain more where "ops = (ops0 @ [UseValue tok v]) @ more"
      by blast
    with a v show "\<exists>a v. app s1 = Some a \<and> f [] = Inr v \<and> UseValue tok v \<in> set (app_overrides a)"
      by simp
  qed
  from rec eq build show ?thesis by blast
qed

text \<open>An override of \<open>SchoolService\<close> by a factory with a declared dependency.\<close>

theorem factory_override_called_once_witness:
  "(\<exists>a. app (fst (snd (setupApp database_from_modules
            (overrideProviderWithFactory ''SchoolService'' mock_factory [''DATABASE_CONNECTION'']
               new_E2ETestSetup) quiet_world))) = Some a
        \<and> UseValue ''SchoolService'' (Str ''mock/0'') \<in> set (app_overrides a))
   \<and> events (snd (snd (setupApp database_from_modules
            (overrideProviderWithFactory ''SchoolService'' mock_factory [''DATABASE_CONNECTION'']
               new_E2ETestSetup) quiet_world)))
       = [FactoryInvoked ''SchoolService'' [], AppCompile, AppInit]"
proof -
  let ?s = "overrideProviderWithFactory ''SchoolService'' mock_factory [''DATABASE_CONNECTION'']
               new_E2ETestSetup"
  obtain s1 w1 where b: "setupApp database_from_modules ?s quiet_world = (Inr (), s1, w1)"
    and ev: "events w1 = [FactoryInvoked ''SchoolService'' [], AppCompile, AppInit]"
    by (simp add: overrideProviderWithFactory_def new_E2ETestSetup_def mock_factory_def
        setupApp_def ext_call_def quiet_world_def database_from_modules_def Let_def AppModule_def)
  have m: "mock_factory [] = Inr (Str ''mock/0'')"
    by (simp add: mock_factory_def show_nat.simps digit_char_def)
  have p: "providerOverrides ?s =
             [] @ factory_entry ''SchoolService'' mock_factory [''DATABASE_CONNECTION''] # []"
    by (simp add: overrideProviderWithFactory_def new_E2ETestSetup_def factory_entry_def)
  from factory_override_called_once [of "''SchoolService''" mock_factory "[''DATABASE_CONNECTION'']"
      new_E2ETestSetup "[]" "[]" "[]" quiet_world ?s database_from_modules s1 w1] p b m
  have "\<exists>a. app s1 = Some a \<and> UseValue ''SchoolService'' (Str ''mock/0'') \<in> set (app_overrides a)"
    by auto
  with b ev show ?thesis by simp
qed

section \<open>Rendering is injective\<close>

lemma lt10_cases:
  "(d::nat) < 10 \<Longrightarrow> d = 0 \<or> d = 1 \<or> d = 2 \<or> d = 3 \<or> d = 4 \<or> d = 5 \<or> d = 6 \<or> d = 7 \<or> d = 8 \<or> d = 9"
  by arith

lemma digit_char_decimal: "d < 10 \<Longrightarrow> digit_char d \<in> set ''0123456789''"
  by (drule lt10_cases) (auto simp: digit_char_def)

lemma digit_char_inj: "d < 10 \<Longrightarrow> e < 10 \<Longrightarrow> digit_char d = digit_char e \<Longrightarrow> d = e"
  by (drule lt10_cases, drule lt10_cases) (auto simp: digit_char_def)

lemma show_nat_decimal: "set (show_nat n) \<subseteq> set ''0123456789''"
proof (induction n rule: show_nat.induct)
  case (1 n)
  show ?case
  proof (cases "n < 10")
    case True
    then show ?thesis using digit_char_decimal [of n] by (subst show_nat.simps) simp
  next
    case False
    have "n mod 10 < 10" by simp
    from digit_char_decimal [OF this] 1 [OF False] False
    show ?thesis by (subst show_nat.simps) simp
  qed
qed

lemma show_nat_nonempty: "show_nat n \<noteq> []"
  by (subst show_nat.simps) simp

lemma show_nat_inj: "show_nat m = show_nat n \<Longrightarrow> m = n"
proof (induction m arbitrary: n rule: show_nat.induct)
  case (1 m)
  show ?case
  proof (cases "m < 10")
    case True
    note m = this
    show ?thesis
    proof (cases "n < 10")
      case True
      from "1.prems" m True have "digit_char m = digit_char n"
        by (simp add: show_nat.simps [of m] show_nat.simps [of n])
      with m True show ?thesis using digit_char_inj by blast
    next
      case False
      from "1.prems" m False have "[digit_char m] = show_nat (n div 10) @ [digit_char (n mod 10)]"
        by (simp add: show_nat.simps [of m] show_nat.simps [of n])
      then have "show_nat (n div 10) = []" by simp
      with show_nat_nonempty show ?thesis by blast
    qed
  next
    case False
    note m = this
    show ?thesis
    proof (cases "n < 10")
      case True
      from "1.prems" m True have "show_nat (m div 10) @ [digit_char (m mod 10)] = [digit_char n]"
        by (simp add: show_nat.simps [of m] show_nat.simps [of n])
      then have "show_nat (m div 10) = []" by simp
      with show_nat_nonempty show ?thesis by blast
    next
      case False
      from "1.prems" m False
      have "show_nat (m div 10) @ [digit_char (m mod 10)] = show_nat (n div 10) @ [digit_char (n mod 10)]"
        by (simp add: show_nat.simps [of m] show_nat.simps [of n])
      then have a: "show_nat (m div 10) = show_nat (n div 10)"
        and b: "digit_char (m mod 10) = digit_char (n mod 10)" by simp_all
      from "1.IH" [OF m a] have d: "m div 10 = n div 10" .
      have "m mod 10 = n mod 10" using b by (intro digit_char_inj) simp_all
      with d show ?thesis by (metis div_mult_mod_eq)
    qed
  qed
qed

lemma show_int_inj: "show_int i = show_int j \<Longrightarrow> i = j"
proof -
  assume e: "show_int i = show_int j"
  have h: "\<And>n. hd (show_nat n) \<noteq> CHR ''-''"
  proof -
    fix n
    have "hd (show_nat n) \<in> set (show_nat n)" using show_nat_nonempty by simp
    with show_nat_decimal [of n] show "hd (show_nat n) \<noteq> CHR ''-''" by auto
  qed
  show ?thesis
  proof (cases "i < 0")
    case True
    note i = this
    show ?thesis
    proof (cases "j < 0")
      case True
      with e i have "show_nat (nat (- i)) = show_nat (nat (- j))" by (simp add: show_int_def)
      from show_nat_inj [OF this] i True show ?thesis by simp
    next
      case False
      with e i have "CHR ''-'' # show_nat (nat (- i)) = show_nat (nat j)" by (simp add: show_int_def)
      then have "hd (show_nat (nat j)) = CHR ''-''" by (metis list.sel(1))
      with h show ?thesis by blast
    qed
  next
    case False
    note i = this
    show ?thesis
    proof (cases "j < 0")
      case True
      with e i have "show_nat (nat i) = CHR ''-'' # show_nat (nat (- j))" by (simp add: show_int_def)
      then have "hd (show_nat (nat i)) = CHR ''-''" by (metis list.sel(1))
      with h show ?thesis by blast
    next
      case False
      with e i have "show_nat (nat i) = show_nat (nat j)" by (simp add: show_int_def)
      from show_nat_inj [OF this] i False show ?thesis by simp
    qed
  qed
qed

lemma suffix_after_last:
  assumes "xs @ c # ys = xs' @ c # ys'" and "c \<notin> set ys" and "c \<notin> set ys'"
  shows "ys = ys'"
proof -
  have t: "\<And>us vs. c \<notin> set vs \<Longrightarrow> takeWhile (\<lambda>x. x \<noteq> c) (rev (us @ c # vs)) = rev vs"
  proof -
    fix us vs
    assume n: "c \<notin> set vs"
    have "takeWhile (\<lambda>x. x \<noteq> c) (rev vs @ c # rev us) =
          rev vs @ takeWhile (\<lambda>x. x \<noteq> c) (c # rev us)"
      using n by (intro takeWhile_append2) auto
    then show "takeWhile (\<lambda>x. x \<noteq> c) (rev (us @ c # vs)) = rev vs" by simp
  qed
  from t [OF assms(2), of xs] t [OF assms(3), of xs'] assms(1)
  have "rev ys = rev ys'" by simp
  then show ?thesis by simp
qed

lemma index_suffix_inj:
  "a @ ''_'' @ show_nat i = b @ ''_'' @ show_nat j \<Longrightarrow> i = j"
proof -
  assume e: "a @ ''_'' @ show_nat i = b @ ''_'' @ show_nat j"
  have u: "\<And>n. CHR ''_'' \<notin> set (show_nat n)"
    using show_nat_decimal by fastforce
  from e have "a @ CHR ''_'' # show_nat i = b @ CHR ''_'' # show_nat j" by simp
  from suffix_after_last [OF this u u] show_nat_inj show ?thesis by blast
qed

section \<open>Inserts\<close>

lemma table_row_keeps:
  "events (snd (table_row t now p w)) = events w
   \<and> schools (snd (table_row t now p w)) = schools w
   \<and> teachers (snd (table_row t now p w)) = teachers w
   \<and> console (snd (table_row t now p w)) = console w"
  by (cases t) (simp_all add: school_row_def teacher_row_def split: option.splits)

lemma insert_rows_events: "events (snd (insert_rows t now ps w)) = events w"
proof (induction ps arbitrary: w)
  case Nil
  show ?case by simp
next
  case (Cons p ps)
  obtain r w1 where tr: "table_row t now p w = (r, w1)" by (cases "table_row t now p w")
  have e1: "events w1 = events w" using table_row_keeps [of t now p w] tr by simp
  have e2: "events (table_append t r w1) = events w" using e1 by (cases t) simp_all
  obtain r2 w2 where ir: "insert_rows t now ps (table_append t r w1) = (r2, w2)"
    by (cases "insert_rows t now ps (table_append t r w1)")
  have e3: "events w2 = events w" using Cons.IH [of "table_append t r w1"] ir e2 by simp
  show ?case
    using tr e1 e3 ir by (cases r2) simp_all
qed

lemma tx_insert_events: "events (snd (tx_insert t ps w)) = events w @ [InsertTx t ps]"
proof -
  have "\<And>now w0. events (snd (insert_rows t now ps w0)) = events w0"
    by (rule insert_rows_events)
  then have i: "\<And>now w0 r w1. insert_rows t now ps w0 = (r, w1) \<Longrightarrow> events w1 = events w0"
    by (metis snd_conv)
  show ?thesis
    by (auto simp: tx_insert_def ext_call_def Date_now_def Let_def
             split: prod.splits sum.splits dest!: i)
qed

lemma tx_insert_Inr:
  assumes "tx_insert t ps w = (Inr rs, w1)"
  shows "ps \<noteq> [] \<and>
         insert_rows t (clock w (clock_reads w)) ps
           (w\<lparr>events := events w @ [InsertTx t ps], faults := tl (faults w),
              clock_reads := Suc (clock_reads w)\<rparr>) = (Inr rs, w1)"
  using assms
  by (auto simp: tx_insert_def ext_call_def Date_now_def Let_def
           split: prod.splits sum.splits if_splits)

lemma insert_rows_single:
  "insert_rows t now [p] w = (Inr rs, w1) \<Longrightarrow> rs = [fst (table_row t now p w)]"
  by (auto simp: Let_def split: prod.splits if_splits)

lemma tx_insert_single:
  assumes "tx_insert t [p] w = (Inr rs, w1)"
  shows "\<exists>w0. rs = [fst (table_row t (clock w (clock_reads w)) p w0)]
           \<and> schools_id_seq w0 = schools_id_seq w \<and> teachers_id_seq w0 = teachers_id_seq w"
proof -
  let ?w0 = "w\<lparr>events := events w @ [InsertTx t [p]], faults := tl (faults w),
              clock_reads := Suc (clock_reads w)\<rparr>"
  from tx_insert_Inr [OF assms]
  have "insert_rows t (clock w (clock_reads w)) [p] ?w0 = (Inr rs, w1)" by simp
  from insert_rows_single [OF this] show ?thesis by (intro exI [of _ ?w0]) simp
qed

lemma teacher_row_column:
  "c \<in> {''firstName'', ''lastName'', ''email'', ''phone'', ''subject'', ''schoolId''} \<Longrightarrow>
   fst (teacher_row now p w) c = Some (with_default p c Null)"
  by (auto simp: teacher_row_def split: option.splits)

lemma school_row_column:
  "c \<in> {''name'', ''address'', ''phone'', ''email''} \<Longrightarrow>
   fst (school_row now p w) c = Some (with_default p c Null)"
  by (auto simp: school_row_def split: option.splits)

lemma teacher_row_id:
  "col p ''id'' = None \<Longrightarrow> fst (teacher_row now p w) ''id'' = Some (Num (teachers_id_seq w))"
  by (simp add: teacher_row_def)

lemma school_row_id:
  "col p ''id'' = None \<Longrightarrow> fst (school_row now p w) ''id'' = Some (Num (schools_id_seq w))"
  by (simp add: school_row_def)

section \<open>Evaluation at concrete inputs\<close>

lemma frac36_numeral:
  "frac36 (numeral k) r =
     (if r = 0 then []
      else digit_char (nat \<lfloor>r * 36\<rfloor>) # frac36 (pred_numeral k) (r * 36 - of_int \<lfloor>r * 36\<rfloor>))"
  by (simp add: numeral_eq_Suc)

lemma array_from_numeral:
  "array_from f index (numeral k) w =
     (let (x, w1) = f index w;
          (xs, w2) = array_from f (Suc index) (pred_numeral k) w1
      in (x # xs, w2))"
  by (simp add: numeral_eq_Suc)

lemmas eval_defs =
  TeacherFactory_create_def TeacherFactory_create_data_def TeacherFactory_getDefaultData_def
  tx_insert_def ext_call_def Date_now_def teacher_row_def teacher_row_ok_def
  with_default_def col_def varchar_def integer_col_def ids_of_def get_prop_def
  first_row_def or_empty_def spread_def rest_without_def js_or_def map_add_def
  seeded_world_def quiet_world_def school_zero_def school_seven_def returned_def
  show_int_def show_nat.simps digit_char_def Let_def

lemmas gen_defs =
  SchoolFactory_createMany_def SchoolFactory_createMany_data_def SchoolFactory_create_data_def
  SchoolFactory_getDefaultData_def generateName_def generateAddress_def generatePhone_def
  generateEmail_def getTimestampId_def getUniqueId_def streets_def Math_random_def
  Date_now_def tx_insert_def ext_call_def school_row_def school_row_ok_def
  with_default_def col_def varchar_def integer_col_def ids_of_def get_prop_def
  or_empty_def spread_def map_add_def quiet_world_def returned_column_def
  show_int_def show_nat.simps digit_char_def Let_def frac36_numeral array_from_numeral

lemmas teacher_many_defs =
  TeacherFactory_createMany_def TeacherFactory_createMany_data_def TeacherFactory_createMany_row_def
  TeacherFactory_getDefaultData_def Date_now_def tx_insert_def ext_call_def
  teacher_row_def teacher_row_ok_def with_default_def col_def varchar_def integer_col_def
  ids_of_def get_prop_def or_empty_def spread_def rest_without_def js_or_def map_add_def
  quiet_world_def show_int_def show_nat.simps digit_char_def Let_def array_from_numeral

lemmas cleanup_eval_defs =
  SchoolFactory_cleanup_def TeacherFactory_cleanup_def TestFactories_cleanup_def
  db_execute_def ext_call_def console_warn_def new_warnings_def ids_of_def get_prop_def
  seeded_world_def quiet_world_def school_zero_def school_seven_def Let_def

lemmas school_create_defs =
  SchoolFactory_create_def SchoolFactory_create_data_def
  SchoolFactory_getDefaultData_def generateName_def generateAddress_def generatePhone_def
  generateEmail_def getTimestampId_def getUniqueId_def streets_def Math_random_def
  Date_now_def tx_insert_def ext_call_def school_row_def school_row_ok_def
  with_default_def col_def varchar_def integer_col_def ids_of_def get_prop_def first_row_def
  or_empty_def spread_def map_add_def show_int_def show_nat.simps digit_char_def Let_def
  frac36_numeral

section \<open>TeacherFactory.create and the associated school\<close>




lemma TeacherFactory_create_row:
  assumes "TeacherFactory_create overrides w = (Inr v, w1)"
  shows "\<exists>now w0. v = Obj (fst (teacher_row now (fst (TeacherFactory_create_data overrides w)) w0))
           \<and> teachers_id_seq w0 = teachers_id_seq w
           \<and> events w1 = events w @ [InsertTx TeachersTable [fst (TeacherFactory_create_data overrides w)]]"
proof -
  obtain data w2 where d: "TeacherFactory_create_data overrides w = (data, w2)"
    by (cases "TeacherFactory_create_data overrides w")
  have k: "teachers_id_seq w2 = teachers_id_seq w \<and> events w2 = events w"
    using d by (auto simp: TeacherFactory_create_data_def TeacherFactory_getDefaultData_def
                  Date_now_def Let_def split: if_splits)
  from assms d obtain rs where t: "tx_insert TeachersTable [data] w2 = (Inr rs, w1)"
    and v: "v = first_row rs"
    by (auto simp: TeacherFactory_create_def split: prod.splits sum.splits)
  from tx_insert_single [OF t] obtain w0 where
    rs: "rs = [fst (table_row TeachersTable (clock w2 (clock_reads w2)) data w0)]"
    and s: "teachers_id_seq w0 = teachers_id_seq w2" by blast
  have e: "events w1 = events w2 @ [InsertTx TeachersTable [data]]"
    using tx_insert_events [of TeachersTable "[data]" w2] t by simp
  from rs v s k e d show ?thesis by (auto simp: first_row_def)
qed







section \<open>Cleanup resets the identifiers\<close>

lemma db_execute_Inr:
  assumes "db_execute s w = (Inr u, w1)"
  shows "run_stmt s (w\<lparr>events := events w @ [Sql s], faults := tl (faults w)\<rparr>) = (Inr (), w1)"
  using assms
  by (auto simp: db_execute_def ext_call_def Let_def split: if_splits)

lemma db_execute_keeps_console: "db_execute s w = (r, w1) \<Longrightarrow> console w1 = console w"
  using db_execute_console [of s w] by simp

lemma TeacherFactory_cleanup_effect:
  assumes "TeacherFactory_cleanup w = (r, w1)"
    and "FallbackFailed TeacherFactory \<notin> set (new_warnings w w1)"
  shows "teachers w1 = [] \<and> teachers_id_seq w1 = 1"
proof -
  obtain r0 w0 where a: "db_execute TruncateTeachers w = (r0, w0)"
    by (cases "db_execute TruncateTeachers w")
  show ?thesis
  proof (cases r0)
    case (Inr u)
    with a assms(1) have "w1 = w0" by (simp add: TeacherFactory_cleanup_def)
    with db_execute_Inr [of TruncateTeachers w u w0] a Inr show ?thesis by auto
  next
    case (Inl e)
    let ?w2 = "console_warn (CleanupError TeacherFactory) w0"
    have c0: "console w0 = console w" using db_execute_keeps_console [OF a] .
    obtain r3 w3 where b: "db_execute DeleteTeachers ?w2 = (r3, w3)"
      by (cases "db_execute DeleteTeachers ?w2")
    have c3: "console w3 = console w @ [CleanupError TeacherFactory]"
      using db_execute_keeps_console [OF b] c0 by (simp add: console_warn_def)
    show ?thesis
    proof (cases r3)
      case (Inl e3)
      with a \<open>r0 = Inl e\<close> b assms(1)
      have "w1 = console_warn (FallbackFailed TeacherFactory) w3"
        by (simp add: TeacherFactory_cleanup_def)
      with c3 assms(2) show ?thesis by (simp add: new_warnings_def console_warn_def)
    next
      case (Inr u3)
      from db_execute_Inr [of DeleteTeachers ?w2 u3 w3] b Inr
      have t3: "teachers w3 = []" by auto
      obtain r4 w4 where c: "db_execute RestartTeachersSeq w3 = (r4, w4)"
        by (cases "db_execute RestartTeachersSeq w3")
      have c4: "console w4 = console w @ [CleanupError TeacherFactory]"
        using db_execute_keeps_console [OF c] c3 by simp
      show ?thesis
      proof (cases r4)
        case (Inl e4)
        with a \<open>r0 = Inl e\<close> b \<open>r3 = Inr u3\<close> c assms(1)
        have "w1 = console_warn (FallbackFailed TeacherFactory) w4"
          by (simp add: TeacherFactory_cleanup_def)
        with c4 assms(2) show ?thesis by (simp add: new_warnings_def console_warn_def)
      next
        case (Inr u4)
        with a \<open>r0 = Inl e\<close> b \<open>r3 = Inr u3\<close> c assms(1)
        have "w1 = w4" by (simp add: TeacherFactory_cleanup_def)
        with db_execute_Inr [of RestartTeachersSeq w3 u4 w4] c Inr t3 show ?thesis by auto
      qed
    qed
  qed
qed

lemma SchoolFactory_cleanup_effect:
  assumes "SchoolFactory_cleanup w = (r, w1)"
    and "FallbackFailed SchoolFactory \<notin> set (new_warnings w w1)"
  shows "schools w1 = [] \<and> schools_id_seq w1 = 1"
proof -
  obtain r0 w0 where a: "db_execute TruncateSchoolsCascade w = (r0, w0)"
    by (cases "db_execute TruncateSchoolsCascade w")
  show ?thesis
  proof (cases r0)
    case (Inr u)
    with a assms(1) have "w1 = w0" by (simp add: SchoolFactory_cleanup_def)
    with db_execute_Inr [of TruncateSchoolsCascade w u w0] a Inr show ?thesis by auto
  next
    case (Inl e)
    let ?w2 = "console_warn (CleanupError SchoolFactory) w0"
    have c0: "console w0 = console w" using db_execute_keeps_console [OF a] .
    obtain r3 w3 where b: "db_execute DeleteSchools ?w2 = (r3, w3)"
      by (cases "db_execute DeleteSchools ?w2")
    have c3: "console w3 = console w @ [CleanupError SchoolFactory]"
      using db_execute_keeps_console [OF b] c0 by (simp add: console_warn_def)
    show ?thesis
    proof (cases r3)
      case (Inl e3)
      with a \<open>r0 = Inl e\<close> b assms(1)
      have "w1 = console_warn (FallbackFailed SchoolFactory) w3"
        by (simp add: SchoolFactory_cleanup_def)
      with c3 assms(2) show ?thesis by (simp add: new_warnings_def console_warn_def)
    next
      case (Inr u3)
      from db_execute_Inr [of DeleteSchools ?w2 u3 w3] b Inr
      have t3: "schools w3 = []" by (auto split: if_splits)
      obtain r4 w4 where c: "db_execute RestartSchoolsSeq w3 = (r4, w4)"
        by (cases "db_execute RestartSchoolsSeq w3")
      have c4: "console w4 = console w @ [CleanupError SchoolFactory]"
        using db_execute_keeps_console [OF c] c3 by simp
      show ?thesis
      proof (cases r4)
        case (Inl e4)
        with a \<open>r0 = Inl e\<close> b \<open>r3 = Inr u3\<close> c assms(1)
        have "w1 = console_warn (FallbackFailed SchoolFactory) w4"
          by (simp add: SchoolFactory_cleanup_def)
        with c4 assms(2) show ?thesis by (simp add: new_warnings_def console_warn_def)
      next
        case (Inr u4)
        with a \<open>r0 = Inl e\<close> b \<open>r3 = Inr u3\<close> c assms(1)
        have "w1 = w4" by (simp add: SchoolFactory_cleanup_def)
        with db_execute_Inr [of RestartSchoolsSeq w3 u4 w4] c Inr t3 show ?thesis by auto
      qed
    qed
  qed
qed

lemma TestFactories_cleanup_fallback:
  assumes "fst (db_execute TruncateTeachersSchools w) \<noteq> Inr ()"
  shows "snd (TestFactories_cleanup fs w) =
          then_cleanup (fs ''school'') (then_cleanup (fs ''teacher'')
            (console_warn BulkCleanupFailed (snd (db_execute TruncateTeachersSchools w))))
        \<and> BulkCleanupFailed \<in> set (new_warnings w (snd (TestFactories_cleanup fs w)))"
proof -
  obtain r w1 where b: "db_execute TruncateTeachersSchools w = (r, w1)"
    by (cases "db_execute TruncateTeachersSchools w")
  with assms obtain e where Inl: "r = Inl e" by (cases r) simp_all
  have co1: "console w1 = console w"
    using db_execute_console [of TruncateTeachersSchools w] b by simp
  let ?w2 = "console_warn BulkCleanupFailed w1"
  let ?w3 = "then_cleanup (fs ''school'') (then_cleanup (fs ''teacher'') ?w2)"
  have s: "snd (TestFactories_cleanup fs w) = ?w3"
    using b Inl by (simp add: TestFactories_cleanup_def cleanup_loop_order)
  obtain c1 c2 where "console ?w3 = (console ?w2 @ c1) @ c2"
    using then_cleanup_console_grow by metis
  then have "console ?w3 = console w @ BulkCleanupFailed # (c1 @ c2)"
    using co1 by (simp add: console_warn_def)
  then have lg: "BulkCleanupFailed \<in> set (new_warnings w ?w3)"
    by (simp add: new_warnings_def)
  show ?thesis using b s lg by simp
qed

lemma TestFactories_cleanup_effect:
  assumes "TestFactories_cleanup fs w = (r, w1)"
    and "BulkCleanupFailed \<notin> set (new_warnings w w1)"
  shows "schools w1 = [] \<and> schools_id_seq w1 = 1 \<and> teachers w1 = [] \<and> teachers_id_seq w1 = 1"
proof -
  obtain r0 w0 where a: "db_execute TruncateTeachersSchools w = (r0, w0)"
    by (cases "db_execute TruncateTeachersSchools w")
  show ?thesis
  proof (cases r0)
    case (Inr u)
    with a assms(1) have "w1 = w0" by (simp add: TestFactories_cleanup_def)
    with db_execute_Inr [of TruncateTeachersSchools w u w0] a Inr show ?thesis by auto
  next
    case (Inl e)
    have c0: "console w0 = console w" using db_execute_keeps_console [OF a] .
    have f: "fst (db_execute TruncateTeachersSchools w) \<noteq> Inr ()" using a Inl by simp
    from TestFactories_cleanup_fallback [OF f, of fs]
    have "BulkCleanupFailed \<in> set (new_warnings w (snd (TestFactories_cleanup fs w)))"
      by (rule conjunct2)
    with assms show ?thesis by (metis snd_conv)
  qed
qed

lemma SchoolFactory_create_data_keeps:
  "schools_id_seq (snd (SchoolFactory_create_data overrides w)) = schools_id_seq w
   \<and> col (fst (SchoolFactory_create_data overrides w)) ''id'' = col (or_empty overrides) ''id''"
  by (simp add: SchoolFactory_create_data_def SchoolFactory_getDefaultData_def generateName_def
        generateAddress_def generatePhone_def generateEmail_def getTimestampId_def getUniqueId_def
        Date_now_def Math_random_def Let_def split_def spread_def map_add_def col_def
      split: option.splits)

lemma TeacherFactory_create_data_keeps:
  "col (or_empty overrides) ''id'' = None \<Longrightarrow>
   col (fst (TeacherFactory_create_data overrides w)) ''id'' = None"
  by (auto simp: TeacherFactory_create_data_def TeacherFactory_getDefaultData_def
        Date_now_def Let_def split_def spread_def map_add_def col_def rest_without_def
      split: option.splits jsval.splits)

lemma SchoolFactory_create_first_id:
  assumes "schools_id_seq w = 1" and "col (or_empty overrides) ''id'' = None"
    and "SchoolFactory_create overrides w = (Inr v, w1)"
  shows "opt_chain v ''id'' = Num 1"
proof -
  obtain data w2 where d: "SchoolFactory_create_data overrides w = (data, w2)"
    by (cases "SchoolFactory_create_data overrides w")
  from SchoolFactory_create_data_keeps [of overrides w] d assms(1,2)
  have s: "schools_id_seq w2 = 1" and i: "col data ''id'' = None" by simp_all
  from assms(3) d obtain rs where t: "tx_insert SchoolsTable [data] w2 = (Inr rs, w1)"
    and v: "v = first_row rs"
    by (auto simp: SchoolFactory_create_def split: prod.splits sum.splits)
  from tx_insert_single [OF t] obtain w0 where
    rs: "rs = [fst (table_row SchoolsTable (clock w2 (clock_reads w2)) data w0)]"
    and s0: "schools_id_seq w0 = schools_id_seq w2" by blast
  from rs v s s0 school_row_id [OF i, of "clock w2 (clock_reads w2)" w0]
  show ?thesis by (simp add: first_row_def get_prop_def)
qed

lemma TeacherFactory_create_first_id:
  assumes "teachers_id_seq w = 1" and "col (or_empty overrides) ''id'' = None"
    and "TeacherFactory_create overrides w = (Inr v, w1)"
  shows "opt_chain v ''id'' = Num 1"
proof -
  let ?data = "fst (TeacherFactory_create_data overrides w)"
  have i: "col ?data ''id'' = None" by (rule TeacherFactory_create_data_keeps [OF assms(2)])
  from TeacherFactory_create_row [OF assms(3)] obtain now w0 where
    v: "v = Obj (fst (teacher_row now ?data w0))" and s: "teachers_id_seq w0 = teachers_id_seq w"
    by blast
  from v s assms(1) teacher_row_id [OF i, of now w0] show ?thesis by (simp add: get_prop_def)
qed

lemma run_stmt_school_keeps_teachers_clean:
  assumes "s \<in> {TruncateSchoolsCascade, DeleteSchools, RestartSchoolsSeq}"
    and "teachers w = [] \<and> teachers_id_seq w = 1"
  shows "teachers (snd (run_stmt s w)) = [] \<and> teachers_id_seq (snd (run_stmt s w)) = 1"
  using assms by (cases s) auto

lemma db_execute_school_keeps_teachers_clean:
  assumes "s \<in> {TruncateSchoolsCascade, DeleteSchools, RestartSchoolsSeq}"
    and "teachers w = [] \<and> teachers_id_seq w = 1"
    and "db_execute s w = (r, w1)"
  shows "teachers w1 = [] \<and> teachers_id_seq w1 = 1"
proof -
  let ?w0 = "w\<lparr>events := events w @ [Sql s], faults := tl (faults w)\<rparr>"
  have c: "teachers ?w0 = [] \<and> teachers_id_seq ?w0 = 1" using assms(2) by simp
  show ?thesis
  proof (cases "faults w \<noteq> [] \<and> hd (faults w)")
    case True
    with assms(3) have "w1 = ?w0" by (simp add: db_execute_def ext_call_def Let_def)
    with c show ?thesis by simp
  next
    case False
    with assms(3) have "w1 = snd (run_stmt s ?w0)"
      by (auto simp: db_execute_def ext_call_def Let_def)
    with run_stmt_school_keeps_teachers_clean [OF assms(1) c] show ?thesis by simp
  qed
qed

lemma SchoolFactory_cleanup_keeps_teachers_clean:
  assumes "teachers w = [] \<and> teachers_id_seq w = 1"
  shows "teachers (snd (SchoolFactory_cleanup w)) = []
         \<and> teachers_id_seq (snd (SchoolFactory_cleanup w)) = 1"
proof -
  obtain r0 w0 where a: "db_execute TruncateSchoolsCascade w = (r0, w0)"
    by (cases "db_execute TruncateSchoolsCascade w")
  have c0: "teachers w0 = [] \<and> teachers_id_seq w0 = 1"
    by (rule db_execute_school_keeps_teachers_clean [OF _ assms a]) simp
  let ?w2 = "console_warn (CleanupError SchoolFactory) w0"
  have c2: "teachers ?w2 = [] \<and> teachers_id_seq ?w2 = 1" using c0 by (simp add: console_warn_def)
  obtain r3 w3 where b: "db_execute DeleteSchools ?w2 = (r3, w3)"
    by (cases "db_execute DeleteSchools ?w2")
  have c3: "teachers w3 = [] \<and> teachers_id_seq w3 = 1"
    by (rule db_execute_school_keeps_teachers_clean [OF _ c2 b]) simp
  obtain r4 w4 where c: "db_execute RestartSchoolsSeq w3 = (r4, w4)"
    by (cases "db_execute RestartSchoolsSeq w3")
  have c4: "teachers w4 = [] \<and> teachers_id_seq w4 = 1"
    by (rule db_execute_school_keeps_teachers_clean [OF _ c3 c]) simp
  show ?thesis
    using a b c c0 c3 c4
    by (cases r0; cases r3; cases r4) (simp_all add: SchoolFactory_cleanup_def console_warn_def)
qed

lemma new_warnings_append:
  "console w1 = console w @ m \<Longrightarrow> new_warnings w w1 = m"
  by (simp add: new_warnings_def)

lemma TestFactories_cleanup_fallback_effect:
  assumes "TestFactories_cleanup fs w = (r, w1)"
    and "fs ''teacher'' = Some TeacherFactory" and "fs ''school'' = Some SchoolFactory"
    and "FallbackFailed TeacherFactory \<notin> set (new_warnings w w1)"
    and "FallbackFailed SchoolFactory \<notin> set (new_warnings w w1)"
  shows "schools w1 = [] \<and> schools_id_seq w1 = 1 \<and> teachers w1 = [] \<and> teachers_id_seq w1 = 1"
proof -
  obtain r0 w0 where a: "db_execute TruncateTeachersSchools w = (r0, w0)"
    by (cases "db_execute TruncateTeachersSchools w")
  show ?thesis
  proof (cases r0)
    case (Inr u)
    with a assms(1) have "w1 = w0" by (simp add: TestFactories_cleanup_def)
    with db_execute_Inr [of TruncateTeachersSchools w u w0] a Inr show ?thesis by auto
  next
    case (Inl e)
    let ?w2 = "console_warn BulkCleanupFailed w0"
    let ?w3 = "snd (TeacherFactory_cleanup ?w2)"
    let ?w4 = "snd (SchoolFactory_cleanup ?w3)"
    have f: "fst (db_execute TruncateTeachersSchools w) \<noteq> Inr ()" using a Inl by simp
    from TestFactories_cleanup_fallback [OF f, of fs] a assms(1-3)
    have w1: "w1 = ?w4" by (simp add: then_cleanup_def)
    have c2: "console ?w2 = console w @ [BulkCleanupFailed]"
      using db_execute_keeps_console [OF a] by (simp add: console_warn_def)
    obtain m1 where c3: "console ?w3 = console ?w2 @ m1"
      using TeacherFactory_cleanup_console [of ?w2] by blast
    obtain m2 where c4: "console ?w4 = console ?w3 @ m2"
      using SchoolFactory_cleanup_console [of ?w3] by blast
    have nw: "new_warnings w w1 = BulkCleanupFailed # m1 @ m2"
      using w1 c2 c3 c4 by (simp add: new_warnings_def)
    have n1: "FallbackFailed TeacherFactory \<notin> set (new_warnings ?w2 ?w3)"
      using assms(4) nw new_warnings_append [OF c3] by simp
    have n2: "FallbackFailed SchoolFactory \<notin> set (new_warnings ?w3 ?w4)"
      using assms(5) nw new_warnings_append [OF c4] by simp
    have t: "teachers ?w3 = [] \<and> teachers_id_seq ?w3 = 1"
      by (rule TeacherFactory_cleanup_effect [OF prod.collapse [symmetric] n1])
    have s: "schools ?w4 = [] \<and> schools_id_seq ?w4 = 1"
      by (rule SchoolFactory_cleanup_effect [OF prod.collapse [symmetric] n2])
    from SchoolFactory_cleanup_keeps_teachers_clean [OF t] s w1 show ?thesis by simp
  qed
qed

text \<open>
  C7. A factory's \<open>cleanup()\<close> has succeeded when it logged no failure of its fallback.
  The registry's has succeeded when it logged no failure of the bulk truncate, or when
  both factories were instantiated and neither logged a failure of its fallback. After a
  successful \<open>cleanup()\<close> the table (both tables, for the registry) holds no row and its
  sequence is back at 1, and the next \<open>create()\<close> that does not supply an \<open>id\<close> of its
  own returns a row with the identifier 1.
\<close>

theorem cleanup_resets_identifiers:
  "(SchoolFactory_cleanup w = (r, w1) \<and> FallbackFailed SchoolFactory \<notin> set (new_warnings w w1) \<longrightarrow>
      schools w1 = [] \<and> schools_id_seq w1 = 1
      \<and> (col (or_empty ov) ''id'' = None \<and> SchoolFactory_create ov w1 = (Inr v, w2) \<longrightarrow>
           opt_chain v ''id'' = Num 1))
   \<and> (TeacherFactory_cleanup w = (r, w1) \<and> FallbackFailed TeacherFactory \<notin> set (new_warnings w w1) \<longrightarrow>
      teachers w1 = [] \<and> teachers_id_seq w1 = 1
      \<and> (col (or_empty ov) ''id'' = None \<and> TeacherFactory_create ov w1 = (Inr v, w2) \<longrightarrow>
           opt_chain v ''id'' = Num 1))
   \<and> (TestFactories_cleanup fs w = (r, w1)
        \<and> (BulkCleanupFailed \<notin> set (new_warnings w w1)
           \<or> fs ''teacher'' = Some TeacherFactory \<and> fs ''school'' = Some SchoolFactory
             \<and> FallbackFailed TeacherFactory \<notin> set (new_warnings w w1)
             \<and> FallbackFailed SchoolFactory \<notin> set (new_warnings w w1)) \<longrightarrow>
      schools w1 = [] \<and> schools_id_seq w1 = 1 \<and> teachers w1 = [] \<and> teachers_id_seq w1 = 1
      \<and> (col (or_empty ov) ''id'' = None \<and> SchoolFactory_create ov w1 = (Inr v, w2) \<longrightarrow>
           opt_chain v ''id'' = Num 1)
      \<and> (col (or_empty ov) ''id'' = None \<and> TeacherFactory_create ov w1 = (Inr v, w2) \<longrightarrow>
           opt_chain v ''id'' = Num 1))"
proof -
  have registry: "TestFactories_cleanup fs w = (r, w1)
        \<and> (BulkCleanupFailed \<notin> set (new_warnings w w1)
           \<or> fs ''teacher'' = Some TeacherFactory \<and> fs ''school'' = Some SchoolFactory
             \<and> FallbackFailed TeacherFactory \<notin> set (new_warnings w w1)
             \<and> FallbackFailed SchoolFactory \<notin> set (new_warnings w w1)) \<longrightarrow>
      schools w1 = [] \<and> schools_id_seq w1 = 1 \<and> teachers w1 = [] \<and> teachers_id_seq w1 = 1"
    using TestFactories_cleanup_effect [of fs w r w1]
      TestFactories_cleanup_fallback_effect [of fs w r w1]
    by blast
  show ?thesis
    using SchoolFactory_cleanup_effect [of w r w1] TeacherFactory_cleanup_effect [of w r w1]
      registry
      SchoolFactory_create_first_id [of w1 ov v w2] TeacherFactory_create_first_id [of w1 ov v w2]
    by blast
qed

text \<open>
  A school factory whose truncate is refused and whose fallback succeeds, a registry
  whose bulk truncate is refused and whose two factories then clean up, and a teacher
  factory whose truncate is accepted.
\<close>

theorem cleanup_resets_identifiers_witness:
  "returned ''id'' (SchoolFactory_create None
      (snd (SchoolFactory_cleanup (seeded_world\<lparr>faults := [True]\<rparr>)))) = Inr (Num 1)
   \<and> returned ''id'' (TeacherFactory_create None
      (snd (TestFactories_cleanup both_factories (seeded_world\<lparr>faults := [True]\<rparr>)))) = Inr (Num 1)
   \<and> returned ''id'' (TeacherFactory_create None
      (snd (TeacherFactory_cleanup seeded_world))) = Inr (Num 1)"
proof -
  let ?w = "seeded_world\<lparr>faults := [True]\<rparr>"
  obtain r w1 where cl: "SchoolFactory_cleanup ?w = (r, w1)" by (cases "SchoolFactory_cleanup ?w")
  have w1: "w1 = quiet_world\<lparr>schools := [], schools_id_seq := 1, faults := [],
                events := [Sql TruncateSchoolsCascade, Sql DeleteSchools, Sql RestartSchoolsSeq],
                console := [CleanupError SchoolFactory]\<rparr>"
    using cl by (simp add: cleanup_eval_defs)
  have nw: "FallbackFailed SchoolFactory \<notin> set (new_warnings ?w w1)"
    unfolding w1 by (simp add: cleanup_eval_defs)
  have "\<exists>v. fst (SchoolFactory_create None w1) = Inr v"
    unfolding w1 by (simp add: school_create_defs quiet_world_def)
  then obtain v w2 where cr: "SchoolFactory_create None w1 = (Inr v, w2)"
    by (metis prod.collapse)
  have n: "col (or_empty None) ''id'' = None" by (simp add: or_empty_def col_def)
  from cleanup_resets_identifiers [where w = ?w and r = r and ?w1.0 = w1 and ov = None
      and v = v and ?w2.0 = w2] cl nw n cr
  have a: "opt_chain v ''id'' = Num 1" by blast
  obtain r' w1' where cl': "TestFactories_cleanup both_factories ?w = (r', w1')"
    by (cases "TestFactories_cleanup both_factories ?w")
  have bf: "both_factories ''teacher'' = Some TeacherFactory"
    "both_factories ''school'' = Some SchoolFactory"
    by (simp_all add: both_factories_def TestFactories_get_def new_TestFactories_def
          FACTORY_REGISTRY_def)
  have w1': "w1' = quiet_world\<lparr>schools := [], schools_id_seq := 1, faults := [],
                events := [Sql TruncateTeachersSchools, Sql TruncateTeachers,
                           Sql TruncateSchoolsCascade],
                console := [BulkCleanupFailed]\<rparr>"
    using cl' bf by (simp add: cleanup_eval_defs cleanupOrder_def)
  have nw': "FallbackFailed TeacherFactory \<notin> set (new_warnings ?w w1')"
    "FallbackFailed SchoolFactory \<notin> set (new_warnings ?w w1')"
    unfolding w1' by (simp_all add: cleanup_eval_defs)
  have "\<exists>v. fst (TeacherFactory_create None w1') = Inr v"
    unfolding w1' by (simp add: eval_defs)
  then obtain v' w2' where cr': "TeacherFactory_create None w1' = (Inr v', w2')"
    by (metis prod.collapse)
  from cleanup_resets_identifiers [where w = ?w and r = r' and ?w1.0 = w1' and ov = None
      and v = v' and ?w2.0 = w2' and fs = both_factories] cl' bf nw' n cr'
  have b: "opt_chain v' ''id'' = Num 1" by blast
  obtain r3 w3 where cl3: "TeacherFactory_cleanup seeded_world = (r3, w3)"
    by (cases "TeacherFactory_cleanup seeded_world")
  have w3: "w3 = seeded_world\<lparr>events := [Sql TruncateTeachers]\<rparr>"
    using cl3 by (simp add: cleanup_eval_defs)
  have nw3: "FallbackFailed TeacherFactory \<notin> set (new_warnings seeded_world w3)"
    unfolding w3 by (simp add: cleanup_eval_defs)
  have "\<exists>v. fst (TeacherFactory_create None w3) = Inr v"
    unfolding w3 by (simp add: eval_defs)
  then obtain v3 w4 where cr3: "TeacherFactory_create None w3 = (Inr v3, w4)"
    by (metis prod.collapse)
  from cleanup_resets_identifiers [where w = seeded_world and r = r3 and ?w1.0 = w3 and ov = None
      and v = v3 and ?w2.0 = w4] cl3 nw3 n cr3
  have c: "opt_chain v3 ''id'' = Num 1" by blast
  from a b c cl cr cl' cr' cl3 cr3 show ?thesis by (simp add: returned_def)
qed

section \<open>createMany\<close>

lemma teacher_row_timestamp:
  "c \<in> {''createdAt'', ''updatedAt''} \<Longrightarrow>
   fst (teacher_row now p w) c = Some (with_default p c (Num now))"
  by (auto simp: teacher_row_def split: option.splits)

lemma school_row_timestamp:
  "c \<in> {''createdAt'', ''updatedAt''} \<Longrightarrow>
   fst (school_row now p w) c = Some (with_default p c (Num now))"
  by (auto simp: school_row_def split: option.splits)

lemma teacher_row_supplied:
  assumes "c \<in> set (table_columns TeachersTable)" and "col p c = Some v"
  shows "fst (teacher_row now p w) c = Some v"
proof -
  from assms(1) have "c = ''id'' \<or> c \<in> {''firstName'', ''lastName'', ''email'', ''phone'', ''subject'', ''schoolId''} \<or> c \<in> {''createdAt'', ''updatedAt''}"
    by (simp add: table_columns_def)
  then show ?thesis
  proof (elim disjE)
    assume "c = ''id''"
    with assms(2) show ?thesis by (simp add: teacher_row_def)
  next
    assume m: "c \<in> {''firstName'', ''lastName'', ''email'', ''phone'', ''subject'', ''schoolId''}"
    from teacher_row_column [OF m] assms(2) show ?thesis by (simp add: with_default_def)
  next
    assume m: "c \<in> {''createdAt'', ''updatedAt''}"
    from teacher_row_timestamp [OF m] assms(2) show ?thesis by (simp add: with_default_def)
  qed
qed

lemma school_row_supplied:
  assumes "c \<in> set (table_columns SchoolsTable)" and "col p c = Some v"
  shows "fst (school_row now p w) c = Some v"
proof -
  from assms(1) have "c = ''id'' \<or> c \<in> {''name'', ''address'', ''phone'', ''email''} \<or> c \<in> {''createdAt'', ''updatedAt''}"
    by (simp add: table_columns_def)
  then show ?thesis
  proof (elim disjE)
    assume "c = ''id''"
    with assms(2) show ?thesis by (simp add: school_row_def)
  next
    assume m: "c \<in> {''name'', ''address'', ''phone'', ''email''}"
    from school_row_column [OF m] assms(2) show ?thesis by (simp add: with_default_def)
  next
    assume m: "c \<in> {''createdAt'', ''updatedAt''}"
    from school_row_timestamp [OF m] assms(2) show ?thesis by (simp add: with_default_def)
  qed
qed

lemma table_row_supplied:
  "c \<in> set (table_columns t) \<Longrightarrow> col p c = Some v \<Longrightarrow> fst (table_row t now p w) c = Some v"
  by (cases t) (simp_all add: teacher_row_supplied school_row_supplied)

lemma insert_rows_all2:
  "insert_rows t now ps w = (Inr rs, w1) \<Longrightarrow>
   list_all2 (\<lambda>p r. \<exists>w0. r = fst (table_row t now p w0)) ps rs"
proof (induction ps arbitrary: w rs w1)
  case Nil
  then show ?case by simp
next
  case (Cons p ps)
  obtain r w2 where tr: "table_row t now p w = (r, w2)" by (cases "table_row t now p w")
  obtain r3 w3 where ir: "insert_rows t now ps (table_append t r w2) = (r3, w3)"
    by (cases "insert_rows t now ps (table_append t r w2)")
  from Cons.prems tr ir obtain rs' where ok: "r3 = Inr rs'" and rs: "rs = r # rs'"
    by (cases r3) (auto split: if_splits)
  from Cons.IH [of "table_append t r w2" rs' w3] ir ok
  have "list_all2 (\<lambda>p r. \<exists>w0. r = fst (table_row t now p w0)) ps rs'" by simp
  moreover have "\<exists>w0. r = fst (table_row t now p w0)" using tr by (metis fst_conv)
  ultimately show ?case using rs by simp
qed

lemma tx_insert_all2:
  assumes "tx_insert t ps w = (Inr rs, w1)"
  shows "\<exists>now. list_all2 (\<lambda>p r. \<exists>w0. r = fst (table_row t now p w0)) ps rs"
  using tx_insert_Inr [OF assms] insert_rows_all2 by blast

lemma array_from_length: "length (fst (array_from f idx n w)) = n"
  by (induction n arbitrary: idx w) (simp_all add: split_def Let_def)

lemma array_from_nth:
  assumes "\<And>j w0. P j (fst (f j w0))"
  shows "i < n \<Longrightarrow> P (idx + i) (fst (array_from f idx n w) ! i)"
proof (induction n arbitrary: idx w i)
  case 0
  then show ?case by simp
next
  case (Suc n)
  show ?case
  proof (cases i)
    case 0
    then show ?thesis using assms [of idx w] by (simp add: split_def Let_def)
  next
    case (Suc i')
    with Suc.prems have "i' < n" by simp
    from Suc.IH [OF this, of "Suc idx" "snd (f idx w)"] Suc
    show ?thesis by (simp add: split_def Let_def)
  qed
qed

lemma array_from_nth_counter:
  assumes "\<And>j w0. Q (counter w0) (fst (f j w0)) \<and> counter (snd (f j w0)) = counter w0 + 1"
  shows "i < n \<Longrightarrow> Q (counter w + int i) (fst (array_from f idx n w) ! i)"
proof (induction n arbitrary: idx w i)
  case 0
  then show ?case by simp
next
  case (Suc n)
  show ?case
  proof (cases i)
    case 0
    then show ?thesis using assms [of w idx] by (simp add: split_def Let_def)
  next
    case (Suc i')
    with Suc.prems have "i' < n" by simp
    from Suc.IH [OF this, of "snd (f idx w)" "Suc idx"] Suc assms [of w idx]
    show ?thesis by (simp add: split_def Let_def add.assoc)
  qed
qed

lemma TeacherFactory_createMany_row_fields:
  "(''firstName'' \<notin> dom td \<longrightarrow>
      (\<exists>t. fst (TeacherFactory_createMany_row school td j w) ''firstName'' =
            Some (Str ((''Teacher'' @ show_int t) @ ''_'' @ show_nat j))))
   \<and> (''email'' \<notin> dom td \<longrightarrow>
      (\<exists>t. fst (TeacherFactory_createMany_row school td j w) ''email'' =
            Some (Str (((''teacher'' @ show_int t) @ ''_'' @ show_nat j) @ ''@test.com''))))
   \<and> (\<forall>c v. td c = Some v \<and> (c = ''schoolId'' \<longrightarrow> \<not> truthy (opt_chain school ''id'')) \<longrightarrow>
        fst (TeacherFactory_createMany_row school td j w) c = Some v)"
  by (auto simp: TeacherFactory_createMany_row_def TeacherFactory_getDefaultData_def Date_now_def
        Let_def spread_def map_add_def dom_def split: option.splits)

lemma SchoolFactory_create_data_fields:
  "((''name'' \<notin> dom (or_empty ov) \<longrightarrow>
       fst (SchoolFactory_create_data ov w) ''name'' =
         Some (Str (''Test School '' @ show_int (counter w + 1))))
    \<and> (\<forall>c v. or_empty ov c = Some v \<longrightarrow> fst (SchoolFactory_create_data ov w) c = Some v))
   \<and> counter (snd (SchoolFactory_create_data ov w)) = counter w + 1"
  by (auto simp: SchoolFactory_create_data_def SchoolFactory_getDefaultData_def generateName_def
        generateAddress_def generatePhone_def generateEmail_def getTimestampId_def getUniqueId_def
        Date_now_def Math_random_def Let_def split_def spread_def map_add_def dom_def
      split: option.splits)

lemma col_Some: "col p c = Some v \<longleftrightarrow> p c = Some v \<and> v \<noteq> Undefined"
  by (auto simp: col_def split: option.splits jsval.splits)

lemma batch_rows:
  assumes "tx_insert t (fst (array_from f 0 n w)) w2 = (Inr rows, w1)"
  shows "length rows = n"
    and "\<And>i. i < n \<Longrightarrow> \<exists>now w0 wi. rows ! i = fst (table_row t now (fst (f i wi)) w0)"
proof -
  let ?ps = "fst (array_from f 0 n w)"
  from tx_insert_all2 [OF assms] obtain now where
    a2: "list_all2 (\<lambda>p r. \<exists>w0. r = fst (table_row t now p w0)) ?ps rows" by blast
  have lp: "length ?ps = n" by (rule array_from_length)
  from a2 lp show "length rows = n" by (simp add: list_all2_lengthD)
  fix i
  assume i: "i < n"
  with lp have "i < length ?ps" by simp
  from list_all2_nthD [OF a2 this] obtain w0 where
    r: "rows ! i = fst (table_row t now (?ps ! i) w0)" by blast
  have "\<exists>wi. ?ps ! (0 + i) = fst (f (0 + i) wi)"
    using array_from_nth [where f = f and idx = 0 and n = n and i = i and w = w
        and P = "\<lambda>j p. \<exists>wi. p = fst (f j wi)"] i
    by auto
  then obtain wi where "?ps ! i = fst (f i wi)" by auto
  with r show "\<exists>now w0 wi. rows ! i = fst (table_row t now (fst (f i wi)) w0)" by auto
qed

lemma TeacherFactory_createMany_row_firstName:
  assumes "''firstName'' \<notin> dom td"
  shows "\<exists>a. fst (TeacherFactory_createMany_row school td j w) ''firstName'' =
              Some (Str (a @ ''_'' @ show_nat j))"
proof -
  note f = TeacherFactory_createMany_row_fields [of td school j w]
  from f have "''firstName'' \<notin> dom td \<longrightarrow>
      (\<exists>t. fst (TeacherFactory_createMany_row school td j w) ''firstName'' =
            Some (Str ((''Teacher'' @ show_int t) @ ''_'' @ show_nat j)))"
    by (rule conjunct1)
  from this assms have "\<exists>t. fst (TeacherFactory_createMany_row school td j w) ''firstName'' =
            Some (Str ((''Teacher'' @ show_int t) @ ''_'' @ show_nat j))"
    by (rule mp)
  then obtain t where e: "fst (TeacherFactory_createMany_row school td j w) ''firstName'' =
            Some (Str ((''Teacher'' @ show_int t) @ ''_'' @ show_nat j))" by (rule exE)
  show ?thesis by (rule exI [where x = "''Teacher'' @ show_int t"]) (rule e)
qed

lemma TeacherFactory_createMany_row_email:
  assumes "''email'' \<notin> dom td"
  shows "\<exists>a. fst (TeacherFactory_createMany_row school td j w) ''email'' =
              Some (Str ((a @ ''_'' @ show_nat j) @ ''@test.com''))"
proof -
  note f = TeacherFactory_createMany_row_fields [of td school j w]
  from f have "''email'' \<notin> dom td \<longrightarrow>
      (\<exists>t. fst (TeacherFactory_createMany_row school td j w) ''email'' =
            Some (Str (((''teacher'' @ show_int t) @ ''_'' @ show_nat j) @ ''@test.com'')))"
    by (rule conjunct1 [OF conjunct2])
  from this assms have "\<exists>t. fst (TeacherFactory_createMany_row school td j w) ''email'' =
            Some (Str (((''teacher'' @ show_int t) @ ''_'' @ show_nat j) @ ''@test.com''))"
    by (rule mp)
  then obtain t where e: "fst (TeacherFactory_createMany_row school td j w) ''email'' =
            Some (Str (((''teacher'' @ show_int t) @ ''_'' @ show_nat j) @ ''@test.com''))"
    by (rule exE)
  show ?thesis by (rule exI [where x = "''teacher'' @ show_int t"]) (rule e)
qed

lemma TeacherFactory_createMany_row_override:
  assumes "td c = Some v" and "c = ''schoolId'' \<longrightarrow> \<not> truthy (opt_chain school ''id'')"
  shows "fst (TeacherFactory_createMany_row school td j w) c = Some v"
  using assms
  by (simp add: TeacherFactory_createMany_row_def TeacherFactory_getDefaultData_def Date_now_def
        Let_def spread_def map_add_def)

lemma supplied_in_row:
  assumes "c \<in> set (table_columns t)" and "p c = Some v" and "v \<noteq> Undefined"
  shows "fst (table_row t now p w0) c = Some v"
  using table_row_supplied [OF assms(1), of p v now w0] assms(2,3) by (simp add: col_Some)

lemma TeacherFactory_createMany_rows:
  assumes "TeacherFactory_createMany count ov w = (Inr rows, w1)"
  shows "length rows = nat count"
    and "\<And>i. i < nat count \<Longrightarrow> ''firstName'' \<notin> dom (or_empty ov) \<Longrightarrow>
           \<exists>a. (rows ! i) ''firstName'' = Some (Str (a @ ''_'' @ show_nat i))"
    and "\<And>i. i < nat count \<Longrightarrow> ''email'' \<notin> dom (or_empty ov) \<Longrightarrow>
           \<exists>a. (rows ! i) ''email'' = Some (Str ((a @ ''_'' @ show_nat i) @ ''@test.com''))"
    and "\<And>i c v. i < nat count \<Longrightarrow> c \<in> set (table_columns TeachersTable) \<Longrightarrow>
           col (or_empty ov) c = Some v \<Longrightarrow>
           (c = ''schoolId'' \<longrightarrow> \<not> truthy (opt_chain (get_prop (or_empty ov) ''school'') ''id'')) \<Longrightarrow>
           (rows ! i) c = Some v"
proof -
  let ?school = "get_prop (or_empty ov) ''school''"
  let ?td = "rest_without ''school'' (or_empty ov)"
  let ?f = "TeacherFactory_createMany_row ?school ?td"
  let ?w2 = "snd (array_from ?f 0 (nat count) w)"
  from assms have tx: "tx_insert TeachersTable (fst (array_from ?f 0 (nat count) w)) ?w2 = (Inr rows, w1)"
    by (simp add: TeacherFactory_createMany_def TeacherFactory_createMany_data_def split_def Let_def)
  from batch_rows(1) [OF tx] show "length rows = nat count" .
  have fn: "''firstName'' \<in> set (table_columns TeachersTable)"
    and em: "''email'' \<in> set (table_columns TeachersTable)"
    by (simp_all add: table_columns_def)
  {
    fix i
    assume i: "i < nat count" and d: "''firstName'' \<notin> dom (or_empty ov)"
    from d have d': "''firstName'' \<notin> dom ?td" by (simp add: rest_without_def dom_def)
    from batch_rows(2) [OF tx i] obtain now w0 wi where
      r: "rows ! i = fst (table_row TeachersTable now (fst (?f i wi)) w0)" by blast
    from TeacherFactory_createMany_row_firstName [OF d', of ?school i wi] obtain a where
      p: "fst (?f i wi) ''firstName'' = Some (Str (a @ ''_'' @ show_nat i))" by blast
    from supplied_in_row [where t = TeachersTable and c = "''firstName''" and p = "fst (?f i wi)", OF fn p _, of now w0] r
    have e: "(rows ! i) ''firstName'' = Some (Str (a @ ''_'' @ show_nat i))" by simp
    show "\<exists>a. (rows ! i) ''firstName'' = Some (Str (a @ ''_'' @ show_nat i))"
      by (rule exI [where x = a]) (rule e)
  }
  {
    fix i
    assume i: "i < nat count" and d: "''email'' \<notin> dom (or_empty ov)"
    from d have d': "''email'' \<notin> dom ?td" by (simp add: rest_without_def dom_def)
    from batch_rows(2) [OF tx i] obtain now w0 wi where
      r: "rows ! i = fst (table_row TeachersTable now (fst (?f i wi)) w0)" by blast
    from TeacherFactory_createMany_row_email [OF d', of ?school i wi] obtain a where
      p: "fst (?f i wi) ''email'' = Some (Str ((a @ ''_'' @ show_nat i) @ ''@test.com''))" by blast
    from supplied_in_row [where t = TeachersTable and c = "''email''" and p = "fst (?f i wi)", OF em p _, of now w0] r
    have e: "(rows ! i) ''email'' = Some (Str ((a @ ''_'' @ show_nat i) @ ''@test.com''))" by simp
    show "\<exists>a. (rows ! i) ''email'' = Some (Str ((a @ ''_'' @ show_nat i) @ ''@test.com''))"
      by (rule exI [where x = a]) (rule e)
  }
  {
    fix i c v
    assume i: "i < nat count" and c: "c \<in> set (table_columns TeachersTable)"
      and o: "col (or_empty ov) c = Some v"
      and s: "c = ''schoolId'' \<longrightarrow> \<not> truthy (opt_chain ?school ''id'')"
    have "''school'' \<notin> set (table_columns TeachersTable)" by (simp add: table_columns_def)
    with c have ns: "c \<noteq> ''school''" by blast
    from o have ov: "or_empty ov c = Some v" and u: "v \<noteq> Undefined" by (simp_all add: col_Some)
    from ov ns have td: "?td c = Some v" by (simp add: rest_without_def)
    from batch_rows(2) [OF tx i] obtain now w0 wi where
      r: "rows ! i = fst (table_row TeachersTable now (fst (?f i wi)) w0)" by blast
    from TeacherFactory_createMany_row_override [where td = ?td and c = c and school = ?school, OF td s, of i wi]
    have p: "fst (?f i wi) c = Some v" .
    from supplied_in_row [where t = TeachersTable and c = c and p = "fst (?f i wi)", OF c p u, of now w0] r show "(rows ! i) c = Some v" by simp
  }
qed

lemma SchoolFactory_createMany_rows:
  assumes "SchoolFactory_createMany count ov w = (Inr rows, w1)"
  shows "length rows = nat count"
    and "\<And>i. i < nat count \<Longrightarrow> ''name'' \<notin> dom (or_empty ov) \<Longrightarrow>
           (rows ! i) ''name'' = Some (Str (''Test School '' @ show_int (counter w + int i + 1)))"
    and "\<And>i c v. i < nat count \<Longrightarrow> c \<in> set (table_columns SchoolsTable) \<Longrightarrow>
           col (or_empty ov) c = Some v \<Longrightarrow> (rows ! i) c = Some v"
proof -
  let ?f = "\<lambda>index :: nat. SchoolFactory_create_data ov"
  let ?ps = "fst (array_from ?f 0 (nat count) w)"
  let ?w2 = "snd (array_from ?f 0 (nat count) w)"
  from assms have tx: "tx_insert SchoolsTable ?ps ?w2 = (Inr rows, w1)"
    by (simp add: SchoolFactory_createMany_def SchoolFactory_createMany_data_def split_def Let_def)
  from tx_insert_all2 [OF tx] obtain now where
    a2: "list_all2 (\<lambda>p r. \<exists>w0. r = fst (table_row SchoolsTable now p w0)) ?ps rows" by blast
  have lp: "length ?ps = nat count" by (rule array_from_length)
  from a2 lp show len: "length rows = nat count" by (simp add: list_all2_lengthD)
  have row: "\<And>i. i < nat count \<Longrightarrow> \<exists>w0. rows ! i = fst (table_row SchoolsTable now (?ps ! i) w0)"
  proof -
    fix i
    assume "i < nat count"
    with lp have "i < length ?ps" by simp
    from list_all2_nthD [OF a2 this]
    show "\<exists>w0. rows ! i = fst (table_row SchoolsTable now (?ps ! i) w0)" .
  qed
  have sup: "\<And>i c v. i < nat count \<Longrightarrow> c \<in> set (table_columns SchoolsTable) \<Longrightarrow>
               (?ps ! i) c = Some v \<Longrightarrow> v \<noteq> Undefined \<Longrightarrow> (rows ! i) c = Some v"
  proof -
    fix i c v
    assume i: "i < nat count" and c: "c \<in> set (table_columns SchoolsTable)"
      and p: "(?ps ! i) c = Some v" and u: "v \<noteq> Undefined"
    from row [OF i] obtain w0 where r: "rows ! i = fst (table_row SchoolsTable now (?ps ! i) w0)"
      by blast
    from p u have "col (?ps ! i) c = Some v" by (simp add: col_Some)
    from table_row_supplied [where t = SchoolsTable and c = c and p = "?ps ! i", OF c this, of now w0] r
    show "(rows ! i) c = Some v" by simp
  qed
  have fld: "\<And>i. i < nat count \<Longrightarrow>
      (''name'' \<notin> dom (or_empty ov) \<longrightarrow>
         (?ps ! i) ''name'' = Some (Str (''Test School '' @ show_int (counter w + int i + 1))))
      \<and> (\<forall>c v. or_empty ov c = Some v \<longrightarrow> (?ps ! i) c = Some v)"
    by (rule array_from_nth_counter [where f = ?f and idx = 0 and
          Q = "\<lambda>k p. (''name'' \<notin> dom (or_empty ov) \<longrightarrow>
                        p ''name'' = Some (Str (''Test School '' @ show_int (k + 1))))
                     \<and> (\<forall>c v. or_empty ov c = Some v \<longrightarrow> p c = Some v)"],
        rule SchoolFactory_create_data_fields)
  have cols: "''name'' \<in> set (table_columns SchoolsTable)" by (simp add: table_columns_def)
  {
    fix i
    assume i: "i < nat count" and d: "''name'' \<notin> dom (or_empty ov)"
    with fld [OF i]
    have "(?ps ! i) ''name'' = Some (Str (''Test School '' @ show_int (counter w + int i + 1)))"
      by blast
    from sup [OF i cols this]
    show "(rows ! i) ''name'' = Some (Str (''Test School '' @ show_int (counter w + int i + 1)))"
      by simp
  }
  {
    fix i c v
    assume i: "i < nat count" and c: "c \<in> set (table_columns SchoolsTable)"
      and o: "col (or_empty ov) c = Some v"
    from o have ov: "or_empty ov c = Some v" and u: "v \<noteq> Undefined" by (simp_all add: col_Some)
    from ov fld [OF i] have "(?ps ! i) c = Some v" by blast
    from sup [OF i c this u] show "(rows ! i) c = Some v" .
  }
qed


lemma email_suffix_inj:
  "(a @ ''_'' @ show_nat i) @ s = (b @ ''_'' @ show_nat j) @ s \<Longrightarrow> i = j"
  by (simp only: append_same_eq) (rule index_suffix_inj)

lemma distinct_column:
  assumes "\<And>i j. i < length rows \<Longrightarrow> j < length rows \<Longrightarrow> (rows ! i) c = (rows ! j) c \<Longrightarrow> i = j"
  shows "distinct (map (\<lambda>r. r c) rows)"
  unfolding distinct_conv_nth using assms by auto

text \<open>
  C6, as amended. Whenever \<open>createMany(count)\<close> commits, it returns exactly \<open>count\<close>
  rows. In a batch of teachers the first names and the emails are pairwise distinct,
  each unless the overrides set it; in a batch of schools the names are, unless the
  overrides set the name. Every column the overrides supply has the supplied value in
  every row (the teacher's \<open>schoolId\<close> when no associated school with a truthy identifier
  replaces it). Nothing is claimed of the emails of a batch of schools.
\<close>

theorem createMany_rows:
  "(TeacherFactory_createMany count ov w = (Inr rows, w1) \<longrightarrow>
      length rows = nat count
      \<and> (''firstName'' \<notin> dom (or_empty ov) \<longrightarrow> distinct (map (\<lambda>r. r ''firstName'') rows))
      \<and> (''email'' \<notin> dom (or_empty ov) \<longrightarrow> distinct (map (\<lambda>r. r ''email'') rows))
      \<and> (\<forall>r \<in> set rows. \<forall>c \<in> set (table_columns TeachersTable). \<forall>v.
            col (or_empty ov) c = Some v
            \<and> (c = ''schoolId'' \<longrightarrow> \<not> truthy (opt_chain (get_prop (or_empty ov) ''school'') ''id''))
            \<longrightarrow> r c = Some v))
   \<and> (SchoolFactory_createMany count ov w = (Inr rows, w1) \<longrightarrow>
      length rows = nat count
      \<and> (''name'' \<notin> dom (or_empty ov) \<longrightarrow> distinct (map (\<lambda>r. r ''name'') rows))
      \<and> (\<forall>r \<in> set rows. \<forall>c \<in> set (table_columns SchoolsTable). \<forall>v.
            col (or_empty ov) c = Some v \<longrightarrow> r c = Some v))"
proof (intro conjI impI)
  assume cm: "TeacherFactory_createMany count ov w = (Inr rows, w1)"
  note t = TeacherFactory_createMany_rows [OF cm]
  show len: "length rows = nat count" by (rule t(1))
  {
    assume d: "''firstName'' \<notin> dom (or_empty ov)"
    show "distinct (map (\<lambda>r. r ''firstName'') rows)"
    proof (rule distinct_column)
      fix i j
      assume i: "i < length rows" and j: "j < length rows"
        and e: "(rows ! i) ''firstName'' = (rows ! j) ''firstName''"
      from t(2) [of i] i len d obtain a where
        a: "(rows ! i) ''firstName'' = Some (Str (a @ ''_'' @ show_nat i))" by auto
      from t(2) [of j] j len d obtain b where
        b: "(rows ! j) ''firstName'' = Some (Str (b @ ''_'' @ show_nat j))" by auto
      from a b e have "a @ ''_'' @ show_nat i = b @ ''_'' @ show_nat j"
        by (simp only: option.inject jsval.inject)
      then show "i = j" by (rule index_suffix_inj)
    qed
  }
  {
    assume d: "''email'' \<notin> dom (or_empty ov)"
    show "distinct (map (\<lambda>r. r ''email'') rows)"
    proof (rule distinct_column)
      fix i j
      assume i: "i < length rows" and j: "j < length rows"
        and e: "(rows ! i) ''email'' = (rows ! j) ''email''"
      from t(3) [of i] i len d obtain a where
        a: "(rows ! i) ''email'' = Some (Str ((a @ ''_'' @ show_nat i) @ ''@test.com''))" by auto
      from t(3) [of j] j len d obtain b where
        b: "(rows ! j) ''email'' = Some (Str ((b @ ''_'' @ show_nat j) @ ''@test.com''))" by auto
      from a b e have "(a @ ''_'' @ show_nat i) @ ''@test.com'' = (b @ ''_'' @ show_nat j) @ ''@test.com''"
        by (simp only: option.inject jsval.inject)
      then show "i = j" by (rule email_suffix_inj)
    qed
  }
  show "\<forall>r \<in> set rows. \<forall>c \<in> set (table_columns TeachersTable). \<forall>v.
            col (or_empty ov) c = Some v
            \<and> (c = ''schoolId'' \<longrightarrow> \<not> truthy (opt_chain (get_prop (or_empty ov) ''school'') ''id''))
            \<longrightarrow> r c = Some v"
  proof (intro ballI allI impI, elim conjE)
    fix r c v
    assume r: "r \<in> set rows" and c: "c \<in> set (table_columns TeachersTable)"
      and o: "col (or_empty ov) c = Some v"
      and s: "c = ''schoolId'' \<longrightarrow> \<not> truthy (opt_chain (get_prop (or_empty ov) ''school'') ''id'')"
    from r obtain i where i: "i < length rows" and ri: "rows ! i = r"
      by (auto simp: in_set_conv_nth)
    from i len have "i < nat count" by simp
    from t(4) [OF this c o s] ri show "r c = Some v" by simp
  qed
next
  assume cm: "SchoolFactory_createMany count ov w = (Inr rows, w1)"
  note t = SchoolFactory_createMany_rows [OF cm]
  show len: "length rows = nat count" by (rule t(1))
  {
    assume d: "''name'' \<notin> dom (or_empty ov)"
    show "distinct (map (\<lambda>r. r ''name'') rows)"
    proof (rule distinct_column)
      fix i j
      assume i: "i < length rows" and j: "j < length rows"
        and e: "(rows ! i) ''name'' = (rows ! j) ''name''"
      from t(2) [of i] i len d
      have a: "(rows ! i) ''name'' = Some (Str (''Test School '' @ show_int (counter w + int i + 1)))"
        by simp
      from t(2) [of j] j len d
      have b: "(rows ! j) ''name'' = Some (Str (''Test School '' @ show_int (counter w + int j + 1)))"
        by simp
      from a b e have "''Test School '' @ show_int (counter w + int i + 1) =
                       ''Test School '' @ show_int (counter w + int j + 1)"
        by (simp only: option.inject jsval.inject)
      then have "show_int (counter w + int i + 1) = show_int (counter w + int j + 1)"
        by (simp only: same_append_eq)
      from show_int_inj [OF this] show "i = j" by simp
    qed
  }
  show "\<forall>r \<in> set rows. \<forall>c \<in> set (table_columns SchoolsTable). \<forall>v.
            col (or_empty ov) c = Some v \<longrightarrow> r c = Some v"
  proof (intro ballI allI impI)
    fix r c v
    assume r: "r \<in> set rows" and c: "c \<in> set (table_columns SchoolsTable)"
      and o: "col (or_empty ov) c = Some v"
    from r obtain i where i: "i < length rows" and ri: "rows ! i = r"
      by (auto simp: in_set_conv_nth)
    from i len have "i < nat count" by simp
    from t(3) [OF this c o] ri show "r c = Some v" by simp
  qed
qed

text \<open>Two teachers with the subject overridden, two schools with the address overridden.\<close>

theorem createMany_rows_witness:
  "(\<exists>rows w1. TeacherFactory_createMany 2 (Some [''subject'' \<mapsto> Str ''Physics'']) quiet_world
                 = (Inr rows, w1)
      \<and> length rows = 2
      \<and> distinct (map (\<lambda>r. r ''firstName'') rows)
      \<and> distinct (map (\<lambda>r. r ''email'') rows)
      \<and> list_all (\<lambda>r. r ''subject'' = Some (Str ''Physics'')) rows)
   \<and> (\<exists>rows w1. SchoolFactory_createMany 2 (Some [''address'' \<mapsto> Str ''1 Main St'']) quiet_world
                 = (Inr rows, w1)
      \<and> length rows = 2
      \<and> distinct (map (\<lambda>r. r ''name'') rows)
      \<and> list_all (\<lambda>r. r ''address'' = Some (Str ''1 Main St'')) rows)"
proof -
  let ?ov = "[''subject'' \<mapsto> Str ''Physics'']"
  have "\<exists>rows. fst (TeacherFactory_createMany 2 (Some ?ov) quiet_world) = Inr rows"
    by (simp add: teacher_many_defs)
  then obtain rows w1 where c: "TeacherFactory_createMany 2 (Some ?ov) quiet_world = (Inr rows, w1)"
    by (metis prod.collapse)
  have d: "''firstName'' \<notin> dom (or_empty (Some ?ov))" "''email'' \<notin> dom (or_empty (Some ?ov))"
    by (simp_all add: or_empty_def)
  have o: "col (or_empty (Some ?ov)) ''subject'' = Some (Str ''Physics'')"
    by (simp add: or_empty_def col_def)
  have m: "''subject'' \<in> set (table_columns TeachersTable)" by (simp add: table_columns_def)
  note t = createMany_rows [where count = 2 and ov = "Some ?ov" and w = quiet_world
      and rows = rows and ?w1.0 = w1]
  from t c d have a: "length rows = 2 \<and> distinct (map (\<lambda>r. r ''firstName'') rows)
        \<and> distinct (map (\<lambda>r. r ''email'') rows)"
    by simp
  from t c have "\<forall>r \<in> set rows. \<forall>c \<in> set (table_columns TeachersTable). \<forall>v.
            col (or_empty (Some ?ov)) c = Some v
            \<and> (c = ''schoolId'' \<longrightarrow> \<not> truthy (opt_chain (get_prop (or_empty (Some ?ov)) ''school'') ''id''))
            \<longrightarrow> r c = Some v" by blast
  with m o have "\<forall>r \<in> set rows. r ''subject'' = Some (Str ''Physics'')" by fastforce
  then have b: "list_all (\<lambda>r. r ''subject'' = Some (Str ''Physics'')) rows"
    by (simp add: list_all_iff)
  let ?ov' = "[''address'' \<mapsto> Str ''1 Main St'']"
  have "\<exists>rows. fst (SchoolFactory_createMany 2 (Some ?ov') quiet_world) = Inr rows"
    by (simp add: gen_defs)
  then obtain rows' w1' where
    c': "SchoolFactory_createMany 2 (Some ?ov') quiet_world = (Inr rows', w1')"
    by (metis prod.collapse)
  have d': "''name'' \<notin> dom (or_empty (Some ?ov'))" by (simp add: or_empty_def)
  have o': "col (or_empty (Some ?ov')) ''address'' = Some (Str ''1 Main St'')"
    by (simp add: or_empty_def col_def)
  have m': "''address'' \<in> set (table_columns SchoolsTable)" by (simp add: table_columns_def)
  note t' = createMany_rows [where count = 2 and ov = "Some ?ov'" and w = quiet_world
      and rows = rows' and ?w1.0 = w1']
  from t' c' d' have a': "length rows' = 2 \<and> distinct (map (\<lambda>r. r ''name'') rows')" by simp
  from t' c' have "\<forall>r \<in> set rows'. \<forall>c \<in> set (table_columns SchoolsTable). \<forall>v.
            col (or_empty (Some ?ov')) c = Some v \<longrightarrow> r c = Some v" by blast
  with m' o' have "\<forall>r \<in> set rows'. r ''address'' = Some (Str ''1 Main St'')" by fastforce
  then have b': "list_all (\<lambda>r. r ''address'' = Some (Str ''1 Main St'')) rows'"
    by (simp add: list_all_iff)
  from a b c a' b' c' show ?thesis by blast
qed

text \<open>
  C6 as stated fails for the emails of a batch of schools: they come from the clock and
  a random draw, and when both repeat the two rows have the same email.
\<close>

theorem school_batch_emails_coincide:
  "returned_column ''email'' (SchoolFactory_createMany 2 None quiet_world) =
     Inr [Str ''school1000i@example.com'', Str ''school1000i@example.com'']"
  by (simp add: gen_defs)

end
